theory Spec2Isabelle
  imports Complex_Main
begin

section \<open>Tensor and float values\<close>

text \<open>
  The script \<^verbatim>\<open>cmu.py\<close> computes with torch tensors and Python floats. A value is
  either a finite number or one of the three special values of IEEE arithmetic. Finite
  values are modelled by \<^typ>\<open>real\<close>: rounding is left out, and so is the sign of zero
  (every zero divisor met below is a difference \<open>x - x\<close>, which is \<open>+0\<close>).
  The special values follow the IEEE rules that torch applies: tensor arithmetic never
  raises, a division of zero by zero is \<open>NaN\<close>, a division of a non-zero number by zero
  is an infinity, and every comparison with \<open>NaN\<close> is false.
\<close>

datatype tnum = Fin real | PInf | NInf | NaN

fun tneg :: "tnum \<Rightarrow> tnum" where
  "tneg (Fin a) = Fin (- a)"
| "tneg PInf = NInf"
| "tneg NInf = PInf"
| "tneg NaN = NaN"

fun tadd :: "tnum \<Rightarrow> tnum \<Rightarrow> tnum" where
  "tadd (Fin a) (Fin b) = Fin (a + b)"
| "tadd NaN _ = NaN"
| "tadd _ NaN = NaN"
| "tadd PInf NInf = NaN"
| "tadd NInf PInf = NaN"
| "tadd PInf _ = PInf"
| "tadd _ PInf = PInf"
| "tadd NInf _ = NInf"
| "tadd _ NInf = NInf"

definition tsub :: "tnum \<Rightarrow> tnum \<Rightarrow> tnum" where
  "tsub a b = tadd a (tneg b)"

fun tmul :: "tnum \<Rightarrow> tnum \<Rightarrow> tnum" where
  "tmul (Fin a) (Fin b) = Fin (a * b)"
| "tmul NaN _ = NaN"
| "tmul _ NaN = NaN"
| "tmul (Fin a) PInf = (if a = 0 then NaN else if 0 < a then PInf else NInf)"
| "tmul (Fin a) NInf = (if a = 0 then NaN else if 0 < a then NInf else PInf)"
| "tmul PInf (Fin b) = (if b = 0 then NaN else if 0 < b then PInf else NInf)"
| "tmul NInf (Fin b) = (if b = 0 then NaN else if 0 < b then NInf else PInf)"
| "tmul PInf PInf = PInf"
| "tmul NInf NInf = PInf"
| "tmul PInf NInf = NInf"
| "tmul NInf PInf = NInf"

fun tdiv :: "tnum \<Rightarrow> tnum \<Rightarrow> tnum" where
  "tdiv (Fin a) (Fin b) =
     (if b = 0 then (if a = 0 then NaN else if 0 < a then PInf else NInf) else Fin (a / b))"
| "tdiv NaN _ = NaN"
| "tdiv _ NaN = NaN"
| "tdiv (Fin a) PInf = Fin 0"
| "tdiv (Fin a) NInf = Fin 0"
| "tdiv PInf (Fin b) = (if 0 \<le> b then PInf else NInf)"
| "tdiv NInf (Fin b) = (if 0 \<le> b then NInf else PInf)"
| "tdiv PInf PInf = NaN"
| "tdiv NInf NInf = NaN"
| "tdiv PInf NInf = NaN"
| "tdiv NInf PInf = NaN"

text \<open>The comparison \<open>a < b\<close>; \<open>a > b\<close> is \<open>tlt b a\<close> and \<open>a >= b\<close> is \<open>tle b a\<close>.\<close>

fun tlt :: "tnum \<Rightarrow> tnum \<Rightarrow> bool" where
  "tlt (Fin a) (Fin b) = (a < b)"
| "tlt NaN _ = False"
| "tlt _ NaN = False"
| "tlt _ NInf = False"
| "tlt PInf _ = False"
| "tlt NInf _ = True"
| "tlt _ PInf = True"

fun tle :: "tnum \<Rightarrow> tnum \<Rightarrow> bool" where
  "tle (Fin a) (Fin b) = (a \<le> b)"
| "tle NaN _ = False"
| "tle _ NaN = False"
| "tle NInf _ = True"
| "tle _ PInf = True"
| "tle _ NInf = False"
| "tle PInf _ = False"

text \<open>The comparison \<open>a == b\<close>: false as soon as one side is \<open>NaN\<close>.\<close>

definition teq :: "tnum \<Rightarrow> tnum \<Rightarrow> bool" where
  "teq a b = (a \<noteq> NaN \<and> b \<noteq> NaN \<and> a = b)"

text \<open>The reductions \<^verbatim>\<open>x.max()\<close>, \<^verbatim>\<open>x.min()\<close> and \<^verbatim>\<open>x.sum()\<close> of torch; a \<open>NaN\<close>
  element makes the maximum and the minimum \<open>NaN\<close>. Maximum and minimum take the first
  element apart: torch raises on an empty tensor, which the callers below write out.\<close>

definition tmax2 :: "tnum \<Rightarrow> tnum \<Rightarrow> tnum" where
  "tmax2 a b = (if a = NaN \<or> b = NaN then NaN else if tlt a b then b else a)"

definition tmin2 :: "tnum \<Rightarrow> tnum \<Rightarrow> tnum" where
  "tmin2 a b = (if a = NaN \<or> b = NaN then NaN else if tlt b a then b else a)"

definition tmax :: "tnum \<Rightarrow> tnum list \<Rightarrow> tnum" where
  "tmax x xs = fold tmax2 xs x"

definition tmin :: "tnum \<Rightarrow> tnum list \<Rightarrow> tnum" where
  "tmin x xs = fold tmin2 xs x"

definition tsum :: "tnum list \<Rightarrow> tnum" where
  "tsum xs = fold (\<lambda>x acc. tadd acc x) xs (Fin 0)"

text \<open>\<^verbatim>\<open>x.mean()\<close>: the sum over the number of elements, \<open>NaN\<close> for no element.\<close>

definition tmean :: "tnum list \<Rightarrow> tnum" where
  "tmean xs = tdiv (tsum xs) (Fin (real (length xs)))"

text \<open>The expression \<^verbatim>\<open>(marginal_confidence + 1 - entropy) / 2\<close>, which the script
  writes three times (lines 320, 370 and 475).\<close>

definition combine :: "tnum \<Rightarrow> tnum \<Rightarrow> tnum" where
  "combine marginal_confidence entropy =
     tdiv (tsub (tadd marginal_confidence (Fin 1)) entropy) (Fin 2)"

section \<open>Program state\<close>

text \<open>
  Python passes objects by reference, and two of the claims depend on which objects are
  shared. Scalar tensors live in a store \<open>tensors\<close>, optimizers and learning-rate
  schedulers in a store \<open>steps\<close> that counts the calls of \<^verbatim>\<open>step()\<close> on each object;
  an address is an index into its store. An exception is the field \<open>raised\<close>: once it is
  set, every later statement is skipped. The field \<open>log\<close> records what the run did, in
  order.
\<close>

datatype error = RuntimeError | ZeroDivisionError

datatype transform = Train_transform | Val_transform | Ens_transform nat

record dataset =
  from_source :: bool
  task :: string
  split_name :: "string option"
  transform :: transform

text \<open>What the run does, as far as the claims look at it: an iteration of
  \<^verbatim>\<open>pretrain\<close> (epoch, iteration); the entry into and the exit from the block
  \<^verbatim>\<open>with torch.no_grad()\<close> of \<^verbatim>\<open>calc_source_class_weight\<close>; one iteration of the loop
  of \<^verbatim>\<open>calc_source_class_weight\<close>, which runs the backbone and the ensemble on one batch
  (the dataset of the loader, the number of the batch); the class weights that
  \<^verbatim>\<open>main\<close> prints; an iteration of \<^verbatim>\<open>train\<close>
  (epoch, iteration, the bounds it read, the bounds it computed, the target weights);
  an iteration of \<^verbatim>\<open>train_ens_classifier\<close> (head, epoch, iteration); a pass of
  \<^verbatim>\<open>validate\<close> (the dataset of its loader, the two numbers it returns).\<close>

datatype event =
    Pretrain nat nat
  | EnterNoGrad
  | ExitNoGrad
  | WeightBatch dataset nat
  | PrintWeight "tnum list"
  | TrainIter nat nat "tnum \<times> tnum" "tnum \<times> tnum" "tnum list"
  | TrainEns nat nat nat
  | Validate dataset tnum tnum

record state =
  tensors :: "tnum list"
  steps :: "nat list"
  raised :: "error option"
  log :: "event list"

definition new_tensor :: "tnum \<Rightarrow> state \<Rightarrow> nat \<times> state" where
  "new_tensor v s = (length (tensors s), s\<lparr>tensors := tensors s @ [v]\<rparr>)"

definition new_stepper :: "state \<Rightarrow> nat \<times> state" where
  "new_stepper s = (length (steps s), s\<lparr>steps := steps s @ [0]\<rparr>)"

definition step :: "nat \<Rightarrow> state \<Rightarrow> state" where
  "step a s = s\<lparr>steps := (steps s)[a := Suc (steps s ! a)]\<rparr>"

definition emit :: "event \<Rightarrow> state \<Rightarrow> state" where
  "emit e s = s\<lparr>log := log s @ [e]\<rparr>"

definition raise :: "error \<Rightarrow> state \<Rightarrow> state" where
  "raise e s = s\<lparr>raised := Some e\<rparr>"

section \<open>AdversarialStage: the function train\<close>

text \<open>
  One pass of the loop body of \<^verbatim>\<open>train\<close> (lines 353 to 397). The argument \<open>x_t\<close> is
  what the frozen ensemble returns for the target batch drawn in this iteration: the pair
  \<^verbatim>\<open>(marginal_confidence, entropy)\<close> of every sample. The local names
  \<^verbatim>\<open>target_score_upper\<close> and \<^verbatim>\<open>target_score_lower\<close> hold addresses. Lines 371 and
  372 build a new tensor each and bind the local name to it; no statement of \<^verbatim>\<open>train\<close>
  writes into the tensor the name was bound to before. Line 373 divides with no test of
  the divisor. The event records the bounds the iteration read, the bounds it computed
  (the values the meters \<^verbatim>\<open>score_upper\<close> and \<^verbatim>\<open>score_lower\<close> show) and the target
  weights \<^verbatim>\<open>w_t\<close>. The losses and the gradient step change the networks only, which are
  outside this model; the calls of \<^verbatim>\<open>step()\<close> are counted.
\<close>

definition train_iter ::
  "nat \<Rightarrow> nat \<Rightarrow> nat \<Rightarrow> nat \<Rightarrow> (tnum \<times> tnum) list \<Rightarrow> nat \<times> nat \<times> state \<Rightarrow> nat \<times> nat \<times> state" where
  "train_iter optimizer lr_scheduler epoch i x_t v =
     (case v of (target_score_upper, target_score_lower, s) \<Rightarrow>
        if raised s \<noteq> None then v
        else
          (case map (\<lambda>(mc, en). combine mc en) x_t of
             [] \<Rightarrow> (target_score_upper, target_score_lower, raise RuntimeError s)
           | w # ws \<Rightarrow>
               let (upper', s1) =
                     new_tensor (tadd (tmul (tensors s ! target_score_upper) (Fin (1 / 100)))
                                      (tmul (tmax w ws) (Fin (99 / 100)))) s;
                   (lower', s2) =
                     new_tensor (tadd (tmul (tensors s1 ! target_score_lower) (Fin (1 / 100)))
                                      (tmul (tmin w ws) (Fin (99 / 100)))) s1;
                   w_t = map (\<lambda>x. tdiv (tsub x (tensors s2 ! lower'))
                                        (tsub (tensors s2 ! upper') (tensors s2 ! lower')))
                             (w # ws)
               in (upper', lower',
                   step lr_scheduler (step optimizer
                     (emit (TrainIter epoch i
                              (tensors s ! target_score_upper, tensors s ! target_score_lower)
                              (tensors s2 ! upper', tensors s2 ! lower') w_t) s2)))))"

text \<open>The loop \<^verbatim>\<open>for i in range(args.iters_per_epoch)\<close>; \<open>draws\<close> lists the target
  batches that \<^verbatim>\<open>next(train_target_iter)\<close> returns, one per iteration.\<close>

fun train_loop ::
  "nat \<Rightarrow> nat \<Rightarrow> nat \<Rightarrow> nat \<Rightarrow> (tnum \<times> tnum) list list \<Rightarrow> nat \<times> nat \<times> state \<Rightarrow> nat \<times> nat \<times> state" where
  "train_loop optimizer lr_scheduler epoch i [] v = v"
| "train_loop optimizer lr_scheduler epoch i (x_t # draws) v =
     train_loop optimizer lr_scheduler epoch (Suc i) draws
       (train_iter optimizer lr_scheduler epoch i x_t v)"

text \<open>\<^verbatim>\<open>train\<close> returns nothing: its local names are dropped, the stores and the log
  stay.\<close>

definition train ::
  "nat \<Rightarrow> nat \<Rightarrow> nat \<Rightarrow> nat \<Rightarrow> nat \<Rightarrow> (tnum \<times> tnum) list list \<Rightarrow> state \<Rightarrow> state" where
  "train optimizer lr_scheduler target_score_upper target_score_lower epoch draws s =
     snd (snd (train_loop optimizer lr_scheduler epoch 0 draws
                 (target_score_upper, target_score_lower, s)))"

section \<open>One-shot passes\<close>

text \<open>
  A sample of a one-shot pass, as the networks see it during that pass: the two ensemble
  statistics (\<^verbatim>\<open>get_marginal_confidence\<close>, \<^verbatim>\<open>get_entropy\<close>), the softmax row of the
  classifier's own head, its argmax, and the label the loader gives. The computations
  below take a loader as the list of its batches.
\<close>

record sample =
  marginal_confidence :: tnum
  entropy :: tnum
  softmax_output :: "tnum list"
  prediction :: nat
  label :: nat

text \<open>
  Lines 318 to 320 and, word for word, lines 473 to 475. The function \<^verbatim>\<open>norm\<close> is
  imported from \<^verbatim>\<open>tllib.alignment.cmu\<close>, which is not among the sources: it is the
  parameter \<open>norm'\<close>.
\<close>

definition all_score :: "(tnum list \<Rightarrow> tnum list) \<Rightarrow> sample list list \<Rightarrow> tnum list" where
  "all_score norm' val_loader =
     (let all_marginal_confidence = norm' (concat (map (map marginal_confidence) val_loader));
          all_entropy = norm' (concat (map (map entropy) val_loader))
      in map2 combine all_marginal_confidence all_entropy)"

text \<open>Modelled from the spec: \<^verbatim>\<open>norm\<close> of \<^verbatim>\<open>tllib.alignment.cmu\<close>, the static
  normalization, which the spec (4.1) gives as \<^verbatim>\<open>(x - min(x)) / (max(x) - min(x))\<close> over
  the whole vector, with a guard: when the maximum equals the minimum it returns a
  constant, for which the spec names 0.5 (4.1 and 8). The spec does not say what it does
  with an empty vector; the passes below never hand it one.\<close>

definition norm_tensor :: "tnum list \<Rightarrow> tnum list" where
  "norm_tensor x =
     (case x of
        [] \<Rightarrow> []
      | a # as \<Rightarrow>
          let min_val = tmin a as; max_val = tmax a as
          in if teq max_val min_val then map (\<lambda>v. Fin (1 / 2)) x
             else map (\<lambda>v. tdiv (tsub v min_val) (tsub max_val min_val)) x)"

subsection \<open>SourceClassWeighter: calc_source_class_weight\<close>

text \<open>\<^verbatim>\<open>t.mean(dim=0)\<close> of a matrix with \<open>num_classes\<close> columns, given by its rows: the
  mean of each column, \<open>NaN\<close> in every column when there is no row.\<close>

definition mean_dim0 :: "nat \<Rightarrow> tnum list list \<Rightarrow> tnum list" where
  "mean_dim0 num_classes rows = map (\<lambda>j. tmean (map (\<lambda>r. r ! j) rows)) [0..<num_classes]"

text \<open>The rows that the mask \<^verbatim>\<open>all_score >= args.src_threshold\<close> selects (line 323).\<close>

definition selected :: "tnum list list \<Rightarrow> tnum list \<Rightarrow> real \<Rightarrow> tnum list list" where
  "selected all_output score src_threshold =
     map fst (filter (\<lambda>(row, sc). tle (Fin src_threshold) sc) (zip all_output score))"

text \<open>Lines 318 to 326, after the loop has collected the batches: \<open>val_loader\<close> lists,
  batch by batch, what the loop appended to \<^verbatim>\<open>all_marginal_confidence\<close>,
  \<^verbatim>\<open>all_entropy\<close> and \<^verbatim>\<open>all_output\<close>. The labels of the samples are not read.\<close>

definition class_weight ::
  "(tnum list \<Rightarrow> tnum list) \<Rightarrow> sample list list \<Rightarrow> nat \<Rightarrow> real \<Rightarrow> tnum list" where
  "class_weight norm' val_loader num_classes src_threshold =
     (let all_output = concat (map (map softmax_output) val_loader);
          source_class_weight =
            mean_dim0 num_classes
              (selected all_output (all_score norm' val_loader) src_threshold)
      in norm' source_class_weight)"

text \<open>What the function returns from the batches its loop has collected: the weight
  vector, or the exception of \<^verbatim>\<open>torch.cat\<close> when the loop collected no batch.\<close>

definition calc_source_class_weight ::
  "(tnum list \<Rightarrow> tnum list) \<Rightarrow> sample list list \<Rightarrow> nat \<Rightarrow> real \<Rightarrow> error + tnum list" where
  "calc_source_class_weight norm' val_loader num_classes src_threshold =
     (if val_loader = [] then Inl RuntimeError
      else Inr (class_weight norm' val_loader num_classes src_threshold))"

text \<open>A \<^verbatim>\<open>DataLoader\<close>: the dataset it was built on and the batches it gives, each
  sample with the results of the networks on it.\<close>

record loader =
  loader_dataset :: dataset
  batches :: "sample list list"

definition DataLoader :: "dataset \<Rightarrow> sample list list \<Rightarrow> loader" where
  "DataLoader ds bs = \<lparr>loader_dataset = ds, batches = bs\<rparr>"

text \<open>Lines 305 to 316, one iteration of \<^verbatim>\<open>for images, labels in val_loader\<close>: the
  backbone and the ensemble run on the batch, and what they return is appended to the
  lists. The function changes no object of the stores.\<close>

definition weight_batch ::
  "dataset \<Rightarrow> nat \<times> sample list \<Rightarrow> sample list list \<times> state \<Rightarrow> sample list list \<times> state" where
  "weight_batch ds kb v =
     (case kb of (k, batch) \<Rightarrow>
        case v of (collected, s) \<Rightarrow> (collected @ [batch], emit (WeightBatch ds k) s))"

text \<open>Lines 300 to 316: the lists start empty, and the loop over the batches of the
  loader lies inside the block \<^verbatim>\<open>with torch.no_grad()\<close>.\<close>

definition weight_loop :: "loader \<Rightarrow> state \<Rightarrow> sample list list \<times> state" where
  "weight_loop val_loader s =
     (case fold (weight_batch (loader_dataset val_loader))
                (enumerate 0 (batches val_loader)) ([], emit EnterNoGrad s) of
        (collected, s1) \<Rightarrow> (collected, emit ExitNoGrad s1))"

text \<open>Line 200 of \<^verbatim>\<open>main\<close>: \<^verbatim>\<open>(source_class_weight > args.cut).float()\<close>.\<close>

definition cut_mask :: "real \<Rightarrow> tnum list \<Rightarrow> tnum list" where
  "cut_mask cut' source_class_weight =
     map (\<lambda>x. if tlt (Fin cut') x then Fin 1 else Fin 0) source_class_weight"

subsection \<open>EvaluationStage: validate\<close>

text \<open>Modelled from the spec: the class \<^verbatim>\<open>ConfusionMatrix\<close> of \<^verbatim>\<open>tllib.utils.metric\<close>,
  which is not among the sources. The spec (3, 4.7, 6) gives it as a square matrix of
  counts, one row and column per class, accumulated by \<^verbatim>\<open>update(labels, predictions)\<close>
  over the pairs (label, prediction), with \<^verbatim>\<open>compute()\<close> giving the accuracy of each
  class as the diagonal entry over the sum of the row.\<close>

record confmat =
  cm_classes :: nat
  mat :: "nat list list"

definition ConfusionMatrix :: "nat \<Rightarrow> confmat" where
  "ConfusionMatrix n = \<lparr>cm_classes = n, mat = replicate n (replicate n 0)\<rparr>"

definition cm_update :: "nat list \<Rightarrow> nat list \<Rightarrow> confmat \<Rightarrow> confmat" where
  "cm_update labels predictions cm =
     cm\<lparr>mat := map (\<lambda>r. map (\<lambda>c. mat cm ! r ! c
                                  + length (filter (\<lambda>p. p = (r, c)) (zip labels predictions)))
                           [0..<cm_classes cm])
                  [0..<cm_classes cm]\<rparr>"

definition cm_compute :: "confmat \<Rightarrow> tnum list" where
  "cm_compute cm =
     map (\<lambda>r. tdiv (Fin (real (mat cm ! r ! r))) (Fin (real (sum_list (mat cm ! r)))))
         [0..<cm_classes cm]"

text \<open>Lines 483 and 484: the predictions and the labels that reach the confusion
  matrix.\<close>

definition all_predictions :: "nat \<Rightarrow> real \<Rightarrow> tnum list \<Rightarrow> nat list \<Rightarrow> nat list" where
  "all_predictions unknown_class threshold score predictions =
     map2 (\<lambda>p sc. if tlt sc (Fin threshold) then unknown_class else p) predictions score"

definition all_labels :: "nat \<Rightarrow> nat list \<Rightarrow> nat list" where
  "all_labels unknown_class labels =
     map (\<lambda>l. if unknown_class \<le> l then unknown_class else l) labels"

text \<open>Lines 480 to 485.\<close>

definition confusion ::
  "(tnum list \<Rightarrow> tnum list) \<Rightarrow> sample list list \<Rightarrow> nat \<Rightarrow> real \<Rightarrow> confmat" where
  "confusion norm' val_loader num_classes threshold =
     (let unknown_class = num_classes;
          confmat = ConfusionMatrix (num_classes + 1)
      in cm_update
           (all_labels unknown_class (concat (map (map label) val_loader)))
           (all_predictions unknown_class threshold (all_score norm' val_loader)
              (concat (map (map prediction) val_loader)))
           confmat)"

text \<open>Line 491 works on Python floats (\<^verbatim>\<open>.item()\<close>), whose division raises
  \<^verbatim>\<open>ZeroDivisionError\<close> on a zero divisor, whatever the dividend.\<close>

definition py_div :: "tnum \<Rightarrow> tnum \<Rightarrow> error + tnum" where
  "py_div a b = (if b = Fin 0 then Inl ZeroDivisionError else Inr (tdiv a b))"

text \<open>Lines 488 to 491: from the accuracies of the classes to the pair that
  \<^verbatim>\<open>validate\<close> returns. \<^verbatim>\<open>accs[-1]\<close> is the last entry; \<open>accs\<close> has one entry per row
  of the confusion matrix, so it is never empty here.\<close>

definition known_acc :: "tnum list \<Rightarrow> nat \<Rightarrow> tnum" where
  "known_acc accs num_common_classes = tmul (tmean (take num_common_classes accs)) (Fin 100)"

definition unknown_acc :: "tnum list \<Rightarrow> tnum" where
  "unknown_acc accs = tmul (last accs) (Fin 100)"

definition summary :: "tnum list \<Rightarrow> nat \<Rightarrow> error + tnum \<times> tnum" where
  "summary accs num_common_classes =
     (let mean_acc = tmul (tdiv (tadd (tsum (take num_common_classes accs)) (last accs))
                                (Fin (real (num_common_classes + 1))))
                          (Fin 100);
          known = known_acc accs num_common_classes;
          unknown = unknown_acc accs
      in case py_div (tmul (tmul (Fin 2) known) unknown) (tadd known unknown) of
           Inl e \<Rightarrow> Inl e
         | Inr h_score \<Rightarrow> Inr (mean_acc, h_score))"

text \<open>The whole function: it returns the pair \<^verbatim>\<open>(mean_acc, h_score)\<close> or raises
  (\<^verbatim>\<open>torch.cat\<close> when the loader gave no batch, the division of line 491). It changes
  no object of the stores.\<close>

definition validate ::
  "(tnum list \<Rightarrow> tnum list) \<Rightarrow> sample list list \<Rightarrow> nat \<Rightarrow> nat \<Rightarrow> real \<Rightarrow> error + tnum \<times> tnum" where
  "validate norm' val_loader num_classes num_common_classes threshold =
     (if val_loader = [] then Inl RuntimeError
      else summary (cm_compute (confusion norm' val_loader num_classes threshold))
             num_common_classes)"

section \<open>PretrainStage and EnsembleRefreshStage\<close>

text \<open>Of \<^verbatim>\<open>pretrain\<close> and \<^verbatim>\<open>train_ens_classifier\<close> the model keeps the loop and the two
  calls of \<^verbatim>\<open>step()\<close> that end each iteration. \<^verbatim>\<open>range(n)\<close> is empty for a negative
  \<open>n\<close>, and \<^verbatim>\<open>//\<close> rounds down, as \<open>div\<close> on \<^typ>\<open>int\<close> does.\<close>

definition pretrain_iter :: "nat \<Rightarrow> nat \<Rightarrow> nat \<Rightarrow> nat \<Rightarrow> state \<Rightarrow> state" where
  "pretrain_iter optimizer_pretrain lr_scheduler_pretrain epoch i s =
     (if raised s \<noteq> None then s
      else step lr_scheduler_pretrain (step optimizer_pretrain (emit (Pretrain epoch i) s)))"

definition pretrain :: "nat \<Rightarrow> nat \<Rightarrow> nat \<Rightarrow> int \<Rightarrow> state \<Rightarrow> state" where
  "pretrain optimizer_pretrain lr_scheduler_pretrain epoch iters_per_epoch s =
     fold (pretrain_iter optimizer_pretrain lr_scheduler_pretrain epoch)
          [0..<nat iters_per_epoch] s"

definition train_ens_iter :: "nat \<Rightarrow> nat \<Rightarrow> nat \<Rightarrow> nat \<Rightarrow> nat \<Rightarrow> state \<Rightarrow> state" where
  "train_ens_iter optimizer lr_scheduler classifier_index epoch i s =
     (if raised s \<noteq> None then s
      else step lr_scheduler (step optimizer (emit (TrainEns classifier_index epoch i) s)))"

definition train_ens_classifier :: "nat \<Rightarrow> nat \<Rightarrow> nat \<Rightarrow> nat \<Rightarrow> int \<Rightarrow> state \<Rightarrow> state" where
  "train_ens_classifier optimizer lr_scheduler classifier_index epoch iters_per_epoch s =
     fold (train_ens_iter optimizer lr_scheduler classifier_index epoch)
          [0..<nat (iters_per_epoch div 2)] s"

section \<open>The driver main\<close>

text \<open>
  The command line, as far as the stages read it, and what the run meets outside the
  script: the class counts of the source dataset, and the results of the networks on
  the batches that the loaders give (the networks change while training runs, so every
  pass has results of its own).
\<close>

datatype phase = Train | Test | Analysis

record args =
  data :: string
  source :: string
  target :: string
  phase :: phase
  epochs_pretrain :: int
  epochs :: int
  iters_per_epoch :: int
  threshold :: real
  src_threshold :: real
  cut :: real

record world =
  num_classes :: nat
  num_common_classes :: nat
  weight_pass :: "sample list list"
  target_draw :: "nat \<Rightarrow> nat \<Rightarrow> (tnum \<times> tnum) list"
  val_pass :: "nat \<Rightarrow> sample list list"
  test_pass :: "sample list list"

text \<open>\<^verbatim>\<open>universal(dataset, source=...)\<close> applied to a task, a split and a transform:
  lines 105 to 116 build every dataset this way.\<close>

definition universal :: "bool \<Rightarrow> string \<Rightarrow> string option \<Rightarrow> transform \<Rightarrow> dataset" where
  "universal src t sp tr = \<lparr>from_source = src, task = t, split_name = sp, transform = tr\<rparr>"

definition val_dataset :: "args \<Rightarrow> dataset" where
  "val_dataset a = universal False (target a) None Val_transform"

definition test_dataset :: "args \<Rightarrow> dataset" where
  "test_dataset a =
     (if data a = ''DomainNet'' then universal False (target a) (Some ''test'') Val_transform
      else val_dataset a)"

definition train_source_dataset :: "args \<Rightarrow> dataset" where
  "train_source_dataset a = universal True (source a) None Train_transform"

text \<open>Stage 1, lines 168 to 175.\<close>

definition stage1 :: "args \<Rightarrow> state \<Rightarrow> state" where
  "stage1 a s =
     (let (optimizer_pretrain, s1) = new_stepper s;
          (lr_scheduler_pretrain, s2) = new_stepper s1
      in fold (\<lambda>epoch. pretrain optimizer_pretrain lr_scheduler_pretrain epoch (iters_per_epoch a))
              [0..<nat (epochs_pretrain a)] s2)"

text \<open>Lines 214 to 216: the five calls of \<^verbatim>\<open>train_ens_classifier\<close> of one epoch. The
  list \<open>ens_lr_scheduler\<close> holds the addresses of the schedulers.\<close>

definition ens_refresh :: "nat \<Rightarrow> nat list \<Rightarrow> nat \<Rightarrow> int \<Rightarrow> state \<Rightarrow> state" where
  "ens_refresh ens_optimizer ens_lr_scheduler epoch iters s =
     fold (\<lambda>i. train_ens_classifier ens_optimizer (ens_lr_scheduler ! i) i epoch iters)
          [0..<5] s"

text \<open>A call of \<^verbatim>\<open>validate\<close> from \<^verbatim>\<open>main\<close>, on the loader of the dataset \<open>ds\<close>: an
  exception of the call ends the run, a result is recorded (the function prints it).\<close>

definition call_validate :: "dataset \<Rightarrow> error + tnum \<times> tnum \<Rightarrow> state \<Rightarrow> state" where
  "call_validate ds r s =
     (if raised s \<noteq> None then s
      else case r of
             Inl e \<Rightarrow> raise e s
           | Inr (mean_acc, h_score) \<Rightarrow> emit (Validate ds mean_acc h_score) s)"

text \<open>Lines 199 to 203: the call of \<^verbatim>\<open>calc_source_class_weight\<close> on a loader (its
  loop, then the weights from what the loop collected), the mask of line 200 and its
  print. An exception of the call ends the run.\<close>

definition call_calc_source_class_weight ::
  "(tnum list \<Rightarrow> tnum list) \<Rightarrow> loader \<Rightarrow> nat \<Rightarrow> real \<Rightarrow> real \<Rightarrow> state \<Rightarrow> state" where
  "call_calc_source_class_weight norm' val_loader classes src_thr cut' s =
     (if raised s \<noteq> None then s
      else case weight_loop val_loader s of
             (collected, s1) \<Rightarrow>
               (case calc_source_class_weight norm' collected classes src_thr of
                  Inl e \<Rightarrow> raise e s1
                | Inr source_class_weight \<Rightarrow>
                    emit (PrintWeight (cut_mask cut' source_class_weight)) s1))"

text \<open>Lines 211 to 219: the body of the loop over the epochs of stage 2. The
  bookkeeping of the best scores and the checkpoints (lines 220 to 229) is left out.\<close>

definition epoch_body ::
  "(tnum list \<Rightarrow> tnum list) \<Rightarrow> args \<Rightarrow> world \<Rightarrow> nat \<Rightarrow> nat \<Rightarrow> nat \<Rightarrow> nat list \<Rightarrow> nat \<Rightarrow> nat
     \<Rightarrow> nat \<Rightarrow> state \<Rightarrow> state" where
  "epoch_body norm' a w optimizer lr_scheduler ens_optimizer ens_lr_scheduler
      target_score_upper target_score_lower epoch s =
     (let s1 = train optimizer lr_scheduler target_score_upper target_score_lower epoch
                 (map (target_draw w epoch) [0..<nat (iters_per_epoch a)]) s;
          s2 = ens_refresh ens_optimizer ens_lr_scheduler epoch (iters_per_epoch a) s1
      in call_validate (val_dataset a)
           (validate norm' (val_pass w epoch) (num_classes w) (num_common_classes w)
              (threshold a)) s2)"

text \<open>Lines 178 to 203: the objects of stage 2, the two bounds and the class
  weights; \<^verbatim>\<open>val_loader\<close> is the loader that line 124 builds on \<^verbatim>\<open>val_dataset\<close>. The
  result names the addresses of \<^verbatim>\<open>optimizer\<close>, \<^verbatim>\<open>lr_scheduler\<close>,
  \<^verbatim>\<open>ens_optimizer\<close>, the list \<^verbatim>\<open>ens_lr_scheduler\<close> (line 186 repeats one object five
  times), \<^verbatim>\<open>target_score_upper\<close> and \<^verbatim>\<open>target_score_lower\<close>.\<close>

definition stage2_setup ::
  "(tnum list \<Rightarrow> tnum list) \<Rightarrow> args \<Rightarrow> world \<Rightarrow> state
     \<Rightarrow> (nat \<times> nat \<times> nat \<times> nat list \<times> nat \<times> nat) \<times> state" where
  "stage2_setup norm' a w s =
     (let (optimizer, s1) = new_stepper s;
          (lr_scheduler, s2) = new_stepper s1;
          (ens_optimizer, s3) = new_stepper s2;
          (sched, s4) = new_stepper s3;
          ens_lr_scheduler = replicate 5 sched;
          (target_score_upper, s5) = new_tensor (Fin 0) s4;
          (target_score_lower, s6) = new_tensor (Fin 0) s5;
          val_loader = DataLoader (val_dataset a) (weight_pass w);
          s7 = call_calc_source_class_weight norm' val_loader (num_classes w)
                 (src_threshold a) (cut a) s6
      in ((optimizer, lr_scheduler, ens_optimizer, ens_lr_scheduler,
           target_score_upper, target_score_lower), s7))"

text \<open>Lines 209 to 219: the loop over the epochs. The names of \<^verbatim>\<open>main\<close> are bound
  once, before the loop, and every call of \<^verbatim>\<open>train\<close> gets the same two tensors.\<close>

definition stage2 :: "(tnum list \<Rightarrow> tnum list) \<Rightarrow> args \<Rightarrow> world \<Rightarrow> state \<Rightarrow> state" where
  "stage2 norm' a w s =
     (case stage2_setup norm' a w s of
        ((optimizer, lr_scheduler, ens_optimizer, ens_lr_scheduler,
          target_score_upper, target_score_lower), s1) \<Rightarrow>
          fold (epoch_body norm' a w optimizer lr_scheduler ens_optimizer ens_lr_scheduler
                  target_score_upper target_score_lower)
               [0..<nat (epochs a)] s1)"

definition init :: state where
  "init = \<lparr>tensors = [], steps = [], raised = None, log = []\<rparr>"

definition main :: "(tnum list \<Rightarrow> tnum list) \<Rightarrow> args \<Rightarrow> world \<Rightarrow> state" where
  "main norm' a w =
     (case phase a of
        Analysis \<Rightarrow> init
      | Test \<Rightarrow>
          call_validate (test_dataset a)
            (validate norm' (test_pass w) (num_classes w) (num_common_classes w) (threshold a))
            init
      | Train \<Rightarrow>
          call_validate (test_dataset a)
            (validate norm' (test_pass w) (num_classes w) (num_common_classes w) (threshold a))
            (stage2 norm' a w (stage1 a init)))"

section \<open>Reading the log\<close>

fun is_train_iter :: "event \<Rightarrow> bool" where
  "is_train_iter (TrainIter epoch i r n ws) = True"
| "is_train_iter _ = False"

fun is_weight_batch :: "event \<Rightarrow> bool" where
  "is_weight_batch (WeightBatch ds k) = True"
| "is_weight_batch _ = False"

text \<open>Of an iteration of \<^verbatim>\<open>train\<close>: its epoch and number, the bounds it read, the
  bounds it computed, the target weights. The other events give nothing.\<close>

fun train_view :: "event \<Rightarrow> ((nat \<times> nat) \<times> (tnum \<times> tnum) \<times> (tnum \<times> tnum) \<times> tnum list) option" where
  "train_view (TrainIter epoch i r n ws) = Some ((epoch, i), r, n, ws)"
| "train_view _ = None"

definition train_views ::
  "event list \<Rightarrow> ((nat \<times> nat) \<times> (tnum \<times> tnum) \<times> (tnum \<times> tnum) \<times> tnum list) list" where
  "train_views es = List.map_filter train_view es"

definition bounds_read :: "event list \<Rightarrow> ((nat \<times> nat) \<times> tnum \<times> tnum) list" where
  "bounds_read es = map (\<lambda>(k, r, n, ws). (k, r)) (train_views es)"

definition bounds_computed :: "event list \<Rightarrow> (tnum \<times> tnum) list" where
  "bounds_computed es = map (\<lambda>(k, r, n, ws). n) (train_views es)"

definition target_weights :: "event list \<Rightarrow> tnum list list" where
  "target_weights es = map (\<lambda>(k, r, n, ws). ws) (train_views es)"

text \<open>The batches that the loop of \<^verbatim>\<open>calc_source_class_weight\<close> ran the networks on,
  each with the dataset of its loader, and these datasets alone.\<close>

fun weight_view :: "event \<Rightarrow> (dataset \<times> nat) option" where
  "weight_view (WeightBatch ds k) = Some (ds, k)"
| "weight_view _ = None"

definition weight_batches :: "event list \<Rightarrow> (dataset \<times> nat) list" where
  "weight_batches es = List.map_filter weight_view es"

definition weight_datasets :: "event list \<Rightarrow> dataset list" where
  "weight_datasets es = map fst (weight_batches es)"

text \<open>The number of blocks \<^verbatim>\<open>with torch.no_grad()\<close> that the events \<open>es\<close> have
  entered and not yet left: gradient computation is disabled while it is positive.\<close>

fun no_grad_step :: "event \<Rightarrow> nat \<Rightarrow> nat" where
  "no_grad_step EnterNoGrad d = Suc d"
| "no_grad_step ExitNoGrad d = d - 1"
| "no_grad_step _ d = d"

definition no_grad_depth :: "event list \<Rightarrow> nat" where
  "no_grad_depth es = fold no_grad_step es 0"

section \<open>The spec's formulas\<close>

text \<open>
  The spec's wording of the running normalizer (4.1) and of the combined score (4.2),
  kept apart from the code above to be compared with it. The update of the bounds:
  \<^verbatim>\<open>upper' = upper*0.01 + max(batch_scores)*0.99\<close>, and the same for the lower bound
  with the minimum; the spec leaves a batch with no score open, and the bounds stay.
\<close>

definition update_spec :: "tnum \<times> tnum \<Rightarrow> tnum list \<Rightarrow> tnum \<times> tnum" where
  "update_spec b batch_scores =
     (case batch_scores of
        [] \<Rightarrow> b
      | x # xs \<Rightarrow>
          (tadd (tmul (fst b) (Fin (1 / 100))) (tmul (tmax x xs) (Fin (99 / 100))),
           tadd (tmul (snd b) (Fin (1 / 100))) (tmul (tmin x xs) (Fin (99 / 100)))))"

fun running_spec :: "tnum \<times> tnum \<Rightarrow> tnum list list \<Rightarrow> (tnum \<times> tnum) list" where
  "running_spec b [] = []"
| "running_spec b (batch_scores # rest) =
     update_spec b batch_scores # running_spec (update_spec b batch_scores) rest"

text \<open>The normalization of one value against a pair of bounds (upper, lower).\<close>

definition running_normalize :: "tnum \<times> tnum \<Rightarrow> tnum \<Rightarrow> tnum" where
  "running_normalize b x = tdiv (tsub x (snd b)) (tsub (fst b) (snd b))"

text \<open>The combined score as the spec words it for every calling context:
  \<^verbatim>\<open>(normalize(marginal_confidence) + 1 - normalize(entropy)) / 2\<close>, each statistic
  normalized on its own.\<close>

definition score_spec :: "(tnum \<Rightarrow> tnum) \<Rightarrow> tnum \<Rightarrow> tnum \<Rightarrow> tnum" where
  "score_spec nrm mc en = combine (nrm mc) (nrm en)"

text \<open>The raw scores of a target batch, line 370.\<close>

definition raw_scores :: "(tnum \<times> tnum) list \<Rightarrow> tnum list" where
  "raw_scores x_t = map (\<lambda>(mc, en). combine mc en) x_t"

text \<open>The events that one call of \<^verbatim>\<open>train\<close> is expected to log, computed from the
  bounds it starts with by the spec's formulas: each iteration updates the bounds of the
  iteration before it and normalizes the raw scores of its batch against the updated
  bounds. A batch with no sample ends the list.\<close>

fun train_trace :: "nat \<Rightarrow> nat \<Rightarrow> tnum \<times> tnum \<Rightarrow> (tnum \<times> tnum) list list \<Rightarrow> event list" where
  "train_trace epoch i b [] = []"
| "train_trace epoch i b (x_t # draws) =
     (if x_t = [] then []
      else TrainIter epoch i b (update_spec b (raw_scores x_t))
             (map (running_normalize (update_spec b (raw_scores x_t))) (raw_scores x_t))
           # train_trace epoch (Suc i) (update_spec b (raw_scores x_t)) draws)"

section \<open>The expected log of a run\<close>

text \<open>
  The log that a run of \<^verbatim>\<open>main\<close> is expected to leave, written as plain lists: the
  facts below show that the state-passing model leaves exactly this log. The iterations
  of stage 1; the five loops of one refresh of the ensemble; the record of a call of
  \<^verbatim>\<open>validate\<close>; the batches, the evaluation and the outcome of one epoch of stage 2;
  the events of one epoch that starts from the bounds \<open>b\<close>; the events of the loop over
  the epochs, which ends with the first epoch that raises.
\<close>

definition pretrain_trace :: "args \<Rightarrow> event list" where
  "pretrain_trace a =
     concat (map (\<lambda>epoch. map (Pretrain epoch) [0..<nat (iters_per_epoch a)])
                 [0..<nat (epochs_pretrain a)])"

definition ens_trace :: "nat \<Rightarrow> int \<Rightarrow> event list" where
  "ens_trace epoch iters =
     concat (map (\<lambda>i. map (TrainEns i epoch) [0..<nat (iters div 2)]) [0..<5])"

definition validate_trace :: "dataset \<Rightarrow> error + tnum \<times> tnum \<Rightarrow> event list" where
  "validate_trace ds r =
     (case r of Inl e \<Rightarrow> [] | Inr (mean_acc, h_score) \<Rightarrow> [Validate ds mean_acc h_score])"

definition epoch_draws :: "args \<Rightarrow> world \<Rightarrow> nat \<Rightarrow> (tnum \<times> tnum) list list" where
  "epoch_draws a w epoch = map (target_draw w epoch) [0..<nat (iters_per_epoch a)]"

definition epoch_validate :: "(tnum list \<Rightarrow> tnum list) \<Rightarrow> args \<Rightarrow> world \<Rightarrow> nat \<Rightarrow> error + tnum \<times> tnum" where
  "epoch_validate norm' a w epoch =
     validate norm' (val_pass w epoch) (num_classes w) (num_common_classes w) (threshold a)"

definition epoch_ok :: "(tnum list \<Rightarrow> tnum list) \<Rightarrow> args \<Rightarrow> world \<Rightarrow> nat \<Rightarrow> bool" where
  "epoch_ok norm' a w epoch =
     ([] \<notin> set (epoch_draws a w epoch) \<and> isl (epoch_validate norm' a w epoch) = False)"

definition epoch_trace ::
  "(tnum list \<Rightarrow> tnum list) \<Rightarrow> args \<Rightarrow> world \<Rightarrow> tnum \<times> tnum \<Rightarrow> nat \<Rightarrow> event list" where
  "epoch_trace norm' a w b epoch =
     train_trace epoch 0 b (epoch_draws a w epoch)
     @ (if [] \<in> set (epoch_draws a w epoch) then []
        else ens_trace epoch (iters_per_epoch a)
             @ validate_trace (val_dataset a) (epoch_validate norm' a w epoch))"

fun loop_trace :: "(nat \<Rightarrow> event list) \<Rightarrow> (nat \<Rightarrow> bool) \<Rightarrow> nat list \<Rightarrow> event list" where
  "loop_trace f ok [] = []"
| "loop_trace f ok (epoch # rest) = f epoch @ (if ok epoch then loop_trace f ok rest else [])"

text \<open>The record of the pass of \<^verbatim>\<open>calc_source_class_weight\<close>; the last evaluation, on
  the test loader; the whole run in the phase \<^verbatim>\<open>train\<close>, in which every epoch starts
  from the bounds (0, 0).\<close>

definition weight_trace :: "(tnum list \<Rightarrow> tnum list) \<Rightarrow> args \<Rightarrow> world \<Rightarrow> event list" where
  "weight_trace norm' a w =
     EnterNoGrad # map (WeightBatch (val_dataset a)) [0..<length (weight_pass w)]
     @ ExitNoGrad
     # (case calc_source_class_weight norm' (weight_pass w) (num_classes w) (src_threshold a) of
          Inl e \<Rightarrow> []
        | Inr source_class_weight \<Rightarrow> [PrintWeight (cut_mask (cut a) source_class_weight)])"

definition test_validate :: "(tnum list \<Rightarrow> tnum list) \<Rightarrow> args \<Rightarrow> world \<Rightarrow> error + tnum \<times> tnum" where
  "test_validate norm' a w =
     validate norm' (test_pass w) (num_classes w) (num_common_classes w) (threshold a)"

definition main_trace :: "(tnum list \<Rightarrow> tnum list) \<Rightarrow> args \<Rightarrow> world \<Rightarrow> event list" where
  "main_trace norm' a w =
     pretrain_trace a @ weight_trace norm' a w
     @ (if weight_pass w = [] then []
        else loop_trace (epoch_trace norm' a w (Fin 0, Fin 0)) (epoch_ok norm' a w)
               [0..<nat (epochs a)]
             @ (if \<forall>e \<in> set [0..<nat (epochs a)]. epoch_ok norm' a w e
                then validate_trace (test_dataset a) (test_validate norm' a w) else []))"

section \<open>A small run\<close>

text \<open>A loader of three samples in two batches, a command line with two epochs of two
  iterations, and a run in which every pass sees that loader and every target batch
  holds the same two samples. It is used for the concrete statements below.\<close>

definition example_loader :: "sample list list" where
  "example_loader =
     [[\<lparr>marginal_confidence = Fin 0.9, entropy = Fin 0.1, softmax_output = [Fin 0.7, Fin 0.3],
        prediction = 0, label = 0\<rparr>,
       \<lparr>marginal_confidence = Fin 0.2, entropy = Fin 0.8, softmax_output = [Fin 0.6, Fin 0.4],
        prediction = 0, label = 1\<rparr>],
      [\<lparr>marginal_confidence = Fin 0.5, entropy = Fin 0.5, softmax_output = [Fin 0.5, Fin 0.5],
        prediction = 0, label = 5\<rparr>]]"

definition example_args :: args where
  "example_args = \<lparr>data = ''Office31'', source = ''A'', target = ''W'', phase = Train,
     epochs_pretrain = 1, epochs = 2, iters_per_epoch = 2, threshold = 0.7,
     src_threshold = 0.4, cut = 0.1\<rparr>"

definition example_world :: world where
  "example_world = \<lparr>num_classes = 2, num_common_classes = 2, weight_pass = example_loader,
     target_draw = (\<lambda>epoch i. [(Fin 0.9, Fin 0.1), (Fin 0.1, Fin 0.9)]),
     val_pass = (\<lambda>epoch. example_loader), test_pass = example_loader\<rparr>"

section \<open>Facts about the state and about train\<close>

lemma train_iter_eq:
  assumes "raised s = None" "u < length (tensors s)" "l < length (tensors s)" "x_t \<noteq> []"
  shows "train_iter opt sch ep i x_t (u, l, s) =
     (length (tensors s), Suc (length (tensors s)),
      step sch (step opt (emit (TrainIter ep i (tensors s ! u, tensors s ! l)
          (update_spec (tensors s ! u, tensors s ! l) (raw_scores x_t))
          (map (running_normalize (update_spec (tensors s ! u, tensors s ! l) (raw_scores x_t)))
               (raw_scores x_t)))
        (s\<lparr>tensors := tensors s @ [fst (update_spec (tensors s ! u, tensors s ! l) (raw_scores x_t)),
                                  snd (update_spec (tensors s ! u, tensors s ! l) (raw_scores x_t))]\<rparr>))))"
proof -
  obtain p ps where x: "x_t = p # ps" using assms(4) by (cases x_t) auto
  show ?thesis
    using assms(1-3) unfolding x
    by (cases p) (simp add: train_iter_def raw_scores_def update_spec_def running_normalize_def[abs_def]
        new_tensor_def Let_def nth_append comp_def)
qed

lemma train_iter_raised: "raised s \<noteq> None \<Longrightarrow> train_iter opt sch ep i x_t (u, l, s) = (u, l, s)"
  by (simp add: train_iter_def)

lemma train_iter_empty:
  "raised s = None \<Longrightarrow> train_iter opt sch ep i [] (u, l, s) = (u, l, raise RuntimeError s)"
  by (simp add: train_iter_def)

lemma train_loop_raised:
  "raised s \<noteq> None \<Longrightarrow> train_loop opt sch ep i draws (u, l, s) = (u, l, s)"
  by (induction draws arbitrary: i) (simp_all add: train_iter_raised)

lemma step_simps [simp]:
  "tensors (step a s) = tensors s" "raised (step a s) = raised s" "log (step a s) = log s"
  "length (steps (step a s)) = length (steps s)"
  by (simp_all add: step_def)

lemma emit_simps [simp]:
  "tensors (emit e s) = tensors s" "raised (emit e s) = raised s" "log (emit e s) = log s @ [e]"
  "steps (emit e s) = steps s"
  by (simp_all add: emit_def)

lemma raise_simps [simp]:
  "tensors (raise e s) = tensors s" "raised (raise e s) = Some e" "log (raise e s) = log s"
  "steps (raise e s) = steps s"
  by (simp_all add: raise_def)

lemma train_loop_run:
  assumes "raised s = None" "u < length (tensors s)" "l < length (tensors s)"
  shows "\<exists>u' l' s' T. train_loop opt sch ep i draws (u, l, s) = (u', l', s')
      \<and> log s' = log s @ train_trace ep i (tensors s ! u, tensors s ! l) draws
      \<and> tensors s' = tensors s @ T
      \<and> length (steps s') = length (steps s)
      \<and> raised s' = (if [] \<in> set draws then Some RuntimeError else None)"
  using assms
proof (induction draws arbitrary: u l s i)
  case Nil
  then show ?case by simp
next
  case (Cons x_t draws)
  show ?case
  proof (cases "x_t = []")
    case True
    then show ?thesis
      using Cons.prems by (simp add: train_iter_empty train_loop_raised)
  next
    case False
    let ?b = "update_spec (tensors s ! u, tensors s ! l) (raw_scores x_t)"
    let ?s1 = "step sch (step opt (emit (TrainIter ep i (tensors s ! u, tensors s ! l) ?b
          (map (running_normalize ?b) (raw_scores x_t)))
        (s\<lparr>tensors := tensors s @ [fst ?b, snd ?b]\<rparr>)))"
    have it: "train_iter opt sch ep i x_t (u, l, s) = (length (tensors s), Suc (length (tensors s)), ?s1)"
      using train_iter_eq[OF Cons.prems False] .
    have r: "raised ?s1 = None" using Cons.prems(1) by simp
    have t1: "tensors ?s1 = tensors s @ [fst ?b, snd ?b]" by simp
    have a: "length (tensors s) < length (tensors ?s1)" "Suc (length (tensors s)) < length (tensors ?s1)"
      by simp_all
    from Cons.IH[OF r a, of "Suc i"] obtain u' l' s' T where
      run: "train_loop opt sch ep (Suc i) draws (length (tensors s), Suc (length (tensors s)), ?s1) = (u', l', s')"
      and lg: "log s' = log ?s1 @ train_trace ep (Suc i)
                 (tensors ?s1 ! length (tensors s), tensors ?s1 ! Suc (length (tensors s))) draws"
      and tn: "tensors s' = tensors ?s1 @ T"
      and st: "length (steps s') = length (steps ?s1)"
      and rs: "raised s' = (if [] \<in> set draws then Some RuntimeError else None)"
      by blast
    have rd: "(tensors ?s1 ! length (tensors s), tensors ?s1 ! Suc (length (tensors s))) = ?b"
      by (simp add: nth_append)
    show ?thesis
      using run lg tn st rs False unfolding rd
      by (simp add: it)
  qed
qed

lemma train_views_append: "train_views (xs @ ys) = train_views xs @ train_views ys"
  by (simp add: train_views_def List.map_filter_def)

lemma bounds_computed_append: "bounds_computed (xs @ ys) = bounds_computed xs @ bounds_computed ys"
  by (simp add: bounds_computed_def train_views_append)

lemma bounds_computed_trace:
  "[] \<notin> set draws \<Longrightarrow> bounds_computed (train_trace ep i b draws) = running_spec b (map raw_scores draws)"
proof (induction draws arbitrary: i b)
  case Nil
  then show ?case by (simp add: bounds_computed_def train_views_def List.map_filter_def)
next
  case (Cons x draws)
  then have "bounds_computed (train_trace ep (Suc i) (update_spec b (raw_scores x)) draws)
             = running_spec (update_spec b (raw_scores x)) (map raw_scores draws)"
    by simp
  moreover have "x \<noteq> []" using Cons.prems by auto
  ultimately show ?case
    by (simp add: bounds_computed_def train_views_def List.map_filter_def)
qed

lemma train_log:
  assumes "raised s = None" "u < length (tensors s)" "l < length (tensors s)"
  shows "log (train opt sch u l ep draws s) = log s @ train_trace ep 0 (tensors s ! u, tensors s ! l) draws"
  using train_loop_run[OF assms, of opt sch ep 0 draws] by (auto simp: train_def)

section \<open>The running bounds\<close>

text \<open>
  Claim C5, as amended. Within one call of \<^verbatim>\<open>train\<close> that starts without a pending
  exception, with its two names bound to tensors of the store, and whose batches all hold
  a sample, the bounds computed by the iterations are those of the recurrence
  \<^verbatim>\<open>upper_n = 0.01*upper_{n-1} + 0.99*max_n\<close> and
  \<^verbatim>\<open>lower_n = 0.01*lower_{n-1} + 0.99*min_n\<close>, started at the bounds the call was given.
  From upper = 0, three batches whose largest raw scores are 0.5, 0.9 and 0.2 give the
  upper bounds 0.495, 0.89595 and 0.2069595.
\<close>

theorem running_bound_recurrence:
  "(raised s = None \<and> u < length (tensors s) \<and> l < length (tensors s) \<and> [] \<notin> set draws \<longrightarrow>
      bounds_computed (log (train opt sch u l ep draws s))
        = bounds_computed (log s) @ running_spec (tensors s ! u, tensors s ! l) (map raw_scores draws))
   \<and> map fst (bounds_computed (log (train 0 1 0 1 0
         [[(Fin 0.5, Fin 0.5), (Fin 0.1, Fin 0.9)],
          [(Fin 0.9, Fin 0.1), (Fin 0.1, Fin 0.9)],
          [(Fin 0.1, Fin 0.7), (Fin 0.1, Fin 0.9)]]
         \<lparr>tensors = [Fin 0, Fin 0], steps = [0, 0], raised = None, log = []\<rparr>)))
       = [Fin 0.495, Fin 0.89595, Fin 0.2069595]"
proof (intro conjI impI)
  assume "raised s = None \<and> u < length (tensors s) \<and> l < length (tensors s) \<and> [] \<notin> set draws"
  then show "bounds_computed (log (train opt sch u l ep draws s))
        = bounds_computed (log s) @ running_spec (tensors s ! u, tensors s ! l) (map raw_scores draws)"
    by (simp add: train_log bounds_computed_append bounds_computed_trace)
next
  show "map fst (bounds_computed (log (train 0 1 0 1 0
         [[(Fin 0.5, Fin 0.5), (Fin 0.1, Fin 0.9)],
          [(Fin 0.9, Fin 0.1), (Fin 0.1, Fin 0.9)],
          [(Fin 0.1, Fin 0.7), (Fin 0.1, Fin 0.9)]]
         \<lparr>tensors = [Fin 0, Fin 0], steps = [0, 0], raised = None, log = []\<rparr>)))
       = [Fin 0.495, Fin 0.89595, Fin 0.2069595]"
    by (simp add: train_log bounds_computed_def train_views_def List.map_filter_def
        update_spec_def raw_scores_def combine_def tsub_def tmax_def tmin_def tmax2_def tmin2_def)
qed

text \<open>The recurrence used on two iterations, lower bounds included.\<close>

theorem running_bound_recurrence_witness:
  "bounds_computed (log (train 0 1 0 1 0
         [[(Fin 0.5, Fin 0.5), (Fin 0.1, Fin 0.9)], [(Fin 0.9, Fin 0.1), (Fin 0.1, Fin 0.9)]]
         \<lparr>tensors = [Fin 0, Fin 0], steps = [0, 0], raised = None, log = []\<rparr>))
     = [(Fin 0.495, Fin 0.099), (Fin 0.89595, Fin 0.09999)]"
  using running_bound_recurrence[of "\<lparr>tensors = [Fin 0, Fin 0], steps = [0, 0], raised = None, log = []\<rparr>"
      0 1 "[[(Fin 0.5, Fin 0.5), (Fin 0.1, Fin 0.9)], [(Fin 0.9, Fin 0.1), (Fin 0.1, Fin 0.9)]]" 0 1 0]
  by (simp add: bounds_computed_def train_views_def List.map_filter_def
        update_spec_def raw_scores_def combine_def tsub_def tmax_def tmin_def tmax2_def tmin2_def)

text \<open>Claim C5 as the spec states it gives 0.8905 for the second upper bound; the code
  gives 0.89595, further from 0.8905 than any rounding of the floats could explain.\<close>

theorem running_bound_sequence_counterexample:
  "map fst (bounds_computed (log (train 0 1 0 1 0
         [[(Fin 0.5, Fin 0.5), (Fin 0.1, Fin 0.9)],
          [(Fin 0.9, Fin 0.1), (Fin 0.1, Fin 0.9)],
          [(Fin 0.1, Fin 0.7), (Fin 0.1, Fin 0.9)]]
         \<lparr>tensors = [Fin 0, Fin 0], steps = [0, 0], raised = None, log = []\<rparr>))) ! 1
     \<noteq> Fin 0.8905"
  by (simp add: train_log bounds_computed_def train_views_def List.map_filter_def
        update_spec_def raw_scores_def combine_def tsub_def tmax_def tmin_def tmax2_def tmin2_def)

section \<open>The two normalizations\<close>

lemma tmax_Fin: "tmax (Fin x) (map Fin xs) = Fin (Max (set (x # xs)))"
proof -
  have "fold tmax2 (map Fin xs) (Fin a) = Fin (fold max xs a)" for a
    by (induction xs arbitrary: a) (auto simp: tmax2_def max_def)
  then show ?thesis using Max.set_eq_fold[of x xs] by (simp add: tmax_def)
qed

lemma tmin_Fin: "tmin (Fin x) (map Fin xs) = Fin (Min (set (x # xs)))"
proof -
  have "fold tmin2 (map Fin xs) (Fin a) = Fin (fold min xs a)" for a
    by (induction xs arbitrary: a) (auto simp: tmin2_def min_def)
  then show ?thesis using Min.set_eq_fold[of x xs] by (simp add: tmin_def)
qed

lemma raw_scores_Fin:
  "raw_scores (map (\<lambda>(m, e). (Fin m, Fin e)) xs) = map Fin (map (\<lambda>(m, e). (m + 1 - e) / 2) xs)"
  by (induction xs) (auto simp: raw_scores_def combine_def tsub_def)

lemma update_spec_Fin:
  assumes "ws \<noteq> []"
  shows "update_spec (Fin a, Fin b) (map Fin ws)
     = (Fin (a / 100 + 99 / 100 * Max (set ws)), Fin (b / 100 + 99 / 100 * Min (set ws)))"
proof -
  obtain x xs where "ws = x # xs" using assms by (cases ws) auto
  then show ?thesis
    using tmax_Fin[of x xs] tmin_Fin[of x xs] by (simp add: update_spec_def)
qed

lemma running_normalize_Fin:
  "running_normalize (Fin U, Fin L) (Fin w) =
     (if U = L then (if w = L then NaN else if L < w then PInf else NInf)
      else Fin ((w - L) / (U - L)))"
  by (simp add: running_normalize_def tsub_def)




text \<open>
  Claim C4, as amended. The static normalization, as the spec gives it (\<open>norm_tensor\<close>;
  the function \<^verbatim>\<open>norm\<close> that lines 318 and 319 call is not among the sources), returns
  the constant 0.5 in every place for a vector of finite scores whose maximum equals its
  minimum: a finite value, neither \<open>NaN\<close> nor an infinity, and no exception. The running
  normalization of line 373 never raises either, but it has no guard. For an iteration
  of \<^verbatim>\<open>train\<close> that reads finite bounds \<open>a\<close> and \<open>b\<close> and a batch of finite statistics,
  with \<open>U\<close> and \<open>L\<close> the updated bounds: when \<open>U\<close> differs from \<open>L\<close> every target
  weight is the finite number \<open>(w - L) / (U - L)\<close>; when \<open>U = L\<close> no weight is finite,
  it is \<open>NaN\<close> where \<open>w = L\<close> and an infinity elsewhere.
\<close>

theorem running_normalization_unguarded:
  fixes xs :: "(real \<times> real) list" and ys :: "real list" and a :: real and b :: real
  defines "ws \<equiv> map (\<lambda>(m, e). (m + 1 - e) / 2) xs"
  defines "U \<equiv> a / 100 + 99 / 100 * Max (set ws)"
  defines "L \<equiv> b / 100 + 99 / 100 * Min (set ws)"
  shows "(ys \<noteq> [] \<and> Max (set ys) = Min (set ys) \<longrightarrow>
            norm_tensor (map Fin ys) = replicate (length ys) (Fin (1 / 2)))
    \<and> (raised s = None \<and> u < length (tensors s) \<and> l < length (tensors s)
         \<and> tensors s ! u = Fin a \<and> tensors s ! l = Fin b \<and> xs \<noteq> [] \<longrightarrow>
         raised (train opt sch u l ep [map (\<lambda>(m, e). (Fin m, Fin e)) xs] s) = None
         \<and> log (train opt sch u l ep [map (\<lambda>(m, e). (Fin m, Fin e)) xs] s)
             = log s @ [TrainIter ep 0 (Fin a, Fin b) (Fin U, Fin L)
                  (map (\<lambda>w. if U = L then (if w = L then NaN else if L < w then PInf else NInf)
                             else Fin ((w - L) / (U - L))) ws)])"
proof -
  let ?x = "map (\<lambda>(m, e). (Fin m, Fin e)) xs"
  have static: "norm_tensor (map Fin ys) = replicate (length ys) (Fin (1 / 2))"
    if y: "ys \<noteq> []" and eq: "Max (set ys) = Min (set ys)"
  proof -
    obtain c cs where c: "ys = c # cs" using y by (cases ys) auto
    have "tmin (Fin c) (map Fin cs) = Fin (Min (set ys))"
      "tmax (Fin c) (map Fin cs) = Fin (Max (set ys))"
      by (simp_all add: tmin_Fin tmax_Fin c)
    then have "teq (tmax (Fin c) (map Fin cs)) (tmin (Fin c) (map Fin cs))"
      using eq by (simp add: teq_def)
    then show ?thesis
      by (simp add: norm_tensor_def c Let_def map_replicate_const)
  qed
  have running: "raised (train opt sch u l ep [?x] s) = None
      \<and> log (train opt sch u l ep [?x] s)
          = log s @ [TrainIter ep 0 (Fin a, Fin b) (Fin U, Fin L)
               (map (\<lambda>w. if U = L then (if w = L then NaN else if L < w then PInf else NInf)
                          else Fin ((w - L) / (U - L))) ws)]"
    if r: "raised s = None" and ul: "u < length (tensors s)" "l < length (tensors s)"
      and ab: "tensors s ! u = Fin a" "tensors s ! l = Fin b" and x: "xs \<noteq> []"
  proof -
    have ne: "?x \<noteq> []" "ws \<noteq> []" using x by (simp_all add: ws_def)
    have rs: "raw_scores ?x = map Fin ws" by (simp add: raw_scores_Fin ws_def)
    have up: "update_spec (Fin a, Fin b) (map Fin ws) = (Fin U, Fin L)"
      using update_spec_Fin[OF ne(2)] by (simp add: U_def L_def)
    have "train opt sch u l ep [?x] s = snd (snd (train_iter opt sch ep 0 ?x (u, l, s)))"
      by (simp add: train_def)
    then show ?thesis
      by (simp add: train_iter_eq[OF r ul ne(1)] up rs r ab
          running_normalize_Fin[abs_def] comp_def)
  qed
  show ?thesis using static running by blast
qed

text \<open>Two equal scores 0.5: the static normalization gives 0.5 twice; as a batch of
  \<^verbatim>\<open>train\<close> read against the bounds (0, 0), both updated bounds are 0.495 and both
  weights are infinite.\<close>

theorem running_normalization_unguarded_witness:
  "norm_tensor [Fin 0.5, Fin 0.5] = [Fin 0.5, Fin 0.5]
   \<and> log (train 0 1 0 1 0 [[(Fin 0.5, Fin 0.5), (Fin 0.5, Fin 0.5)]]
         \<lparr>tensors = [Fin 0, Fin 0], steps = [0, 0], raised = None, log = []\<rparr>)
     = [TrainIter 0 0 (Fin 0, Fin 0) (Fin 0.495, Fin 0.495) [PInf, PInf]]"
  using running_normalization_unguarded[where ys = "[0.5, 0.5]"
      and s = "\<lparr>tensors = [Fin 0, Fin 0], steps = [0, 0], raised = None, log = []\<rparr>"
      and u = 0 and l = 1 and a = 0 and b = 0 and xs = "[(0.5, 0.5), (0.5, 0.5)]"
      and opt = 0 and sch = 1 and ep = 0]
  by (simp add: numeral_2_eq_2)

text \<open>Claim C4 as the spec states it fails for the running variant: with equal scores in
  the batch the weights are infinite, and with all scores zero they are \<open>NaN\<close>.\<close>

theorem running_normalization_counterexample:
  "target_weights (log (train 0 1 0 1 0 [[(Fin 0.5, Fin 0.5), (Fin 0.5, Fin 0.5)]]
         \<lparr>tensors = [Fin 0, Fin 0], steps = [0, 0], raised = None, log = []\<rparr>)) = [[PInf, PInf]]
   \<and> target_weights (log (train 0 1 0 1 0 [[(Fin 0, Fin 1)]]
         \<lparr>tensors = [Fin 0, Fin 0], steps = [0, 0], raised = None, log = []\<rparr>)) = [[NaN]]"
  by (simp add: train_log target_weights_def train_views_def List.map_filter_def
        update_spec_def raw_scores_def combine_def tsub_def tmax_def tmin_def tmax2_def tmin2_def
        running_normalize_def)

section \<open>The combined score in its three calling contexts\<close>

lemma target_weights_append: "target_weights (xs @ ys) = target_weights xs @ target_weights ys"
  by (simp add: target_weights_def train_views_append)

lemma target_weights_trace:
  "[] \<notin> set draws \<Longrightarrow> target_weights (train_trace ep i b draws)
     = map2 (\<lambda>b' x_t. map (\<lambda>(mc, en). running_normalize b' (combine mc en)) x_t)
         (running_spec b (map raw_scores draws)) draws"
proof (induction draws arbitrary: i b)
  case Nil
  then show ?case by (simp add: target_weights_def train_views_def List.map_filter_def)
next
  case (Cons x draws)
  then have "target_weights (train_trace ep (Suc i) (update_spec b (raw_scores x)) draws)
     = map2 (\<lambda>b' x_t. map (\<lambda>(mc, en). running_normalize b' (combine mc en)) x_t)
         (running_spec (update_spec b (raw_scores x)) (map raw_scores draws)) draws"
    by simp
  moreover have "x \<noteq> []" using Cons.prems by auto
  moreover have "map (running_normalize c) (raw_scores x)
      = map (\<lambda>(mc, en). running_normalize c (combine mc en)) x" for c
    by (simp add: raw_scores_def case_prod_unfold comp_def)
  ultimately show ?case
    by (simp add: target_weights_def train_views_def List.map_filter_def)
qed

lemma norm_tensor_length: "length (norm_tensor xs) = length xs"
  by (cases xs) (simp_all add: norm_tensor_def Let_def)

lemma all_score_nth:
  assumes "\<And>xs. length (norm' xs) = length xs" "i < length (concat val_loader)"
  shows "all_score norm' val_loader ! i
     = combine (norm' (map marginal_confidence (concat val_loader)) ! i)
               (norm' (map entropy (concat val_loader)) ! i)"
  using assms by (simp add: all_score_def Let_def map_concat[symmetric])

lemma all_score_length:
  assumes "\<And>xs. length (norm' xs) = length xs"
  shows "length (all_score norm' val_loader) = length (concat val_loader)"
  using assms by (simp add: all_score_def Let_def map_concat[symmetric])

text \<open>
  Claim C2, as amended. In the one-shot passes (\<^verbatim>\<open>calc_source_class_weight\<close> and
  \<^verbatim>\<open>validate\<close>, which share \<open>all_score\<close>) the score of sample \<open>i\<close> is
  \<^verbatim>\<open>(norm(marginal_confidence)[i] + 1 - norm(entropy)[i]) / 2\<close>, each statistic normalized
  on its own over the whole pass, for any normalizer that keeps the length of its
  argument. Inside the loop of \<^verbatim>\<open>train\<close> the two statistics are not normalized: the raw
  score \<^verbatim>\<open>(marginal_confidence + 1 - entropy) / 2\<close> is formed first, the bounds are
  updated from the raw scores of the batch, and the raw score is then normalized against
  the updated bounds.
\<close>

theorem combined_score_by_context:
  "((\<forall>xs. length (norm' xs) = length xs) \<longrightarrow>
       length (all_score norm' val_loader) = length (concat val_loader)
       \<and> (\<forall>i < length (concat val_loader).
            all_score norm' val_loader ! i
              = combine (norm' (map marginal_confidence (concat val_loader)) ! i)
                        (norm' (map entropy (concat val_loader)) ! i)))
   \<and> (raised s = None \<and> u < length (tensors s) \<and> l < length (tensors s) \<and> [] \<notin> set draws \<longrightarrow>
       target_weights (log (train opt sch u l ep draws s))
         = target_weights (log s)
           @ map2 (\<lambda>b x_t. map (\<lambda>(mc, en). running_normalize b (combine mc en)) x_t)
               (running_spec (tensors s ! u, tensors s ! l) (map raw_scores draws)) draws)"
proof (intro conjI impI allI)
  assume "\<forall>xs. length (norm' xs) = length xs"
  then show "length (all_score norm' val_loader) = length (concat val_loader)"
    by (simp add: all_score_length)
next
  fix i
  assume "\<forall>xs. length (norm' xs) = length xs" "i < length (concat val_loader)"
  then show "all_score norm' val_loader ! i
              = combine (norm' (map marginal_confidence (concat val_loader)) ! i)
                        (norm' (map entropy (concat val_loader)) ! i)"
    by (simp add: all_score_nth)
next
  assume "raised s = None \<and> u < length (tensors s) \<and> l < length (tensors s) \<and> [] \<notin> set draws"
  then show "target_weights (log (train opt sch u l ep draws s))
         = target_weights (log s)
           @ map2 (\<lambda>b x_t. map (\<lambda>(mc, en). running_normalize b (combine mc en)) x_t)
               (running_spec (tensors s ! u, tensors s ! l) (map raw_scores draws)) draws"
    by (simp add: train_log target_weights_append target_weights_trace)
qed

text \<open>Both halves at concrete inputs: the third sample of a pass of two batches, and
  the weights of one iteration of \<^verbatim>\<open>train\<close>.\<close>

theorem combined_score_by_context_witness:
  "all_score norm_tensor
      [[\<lparr>marginal_confidence = Fin 0.9, entropy = Fin 0.1, softmax_output = [Fin 0.7, Fin 0.3],
         prediction = 0, label = 0\<rparr>,
        \<lparr>marginal_confidence = Fin 0.2, entropy = Fin 0.8, softmax_output = [Fin 0.4, Fin 0.6],
         prediction = 1, label = 1\<rparr>],
       [\<lparr>marginal_confidence = Fin 0.5, entropy = Fin 0.5, softmax_output = [Fin 0.5, Fin 0.5],
         prediction = 0, label = 1\<rparr>]] ! 2 = Fin (3 / 7)
   \<and> target_weights (log (train 0 1 0 1 0 [[(Fin 0.9, Fin 0.1), (Fin 0.1, Fin 0.9)]]
         \<lparr>tensors = [Fin 0, Fin 0], steps = [0, 0], raised = None, log = []\<rparr>))
       = [[Fin (89 / 88), Fin (1 / 792)]]"
proof -
  let ?vl = "[[\<lparr>marginal_confidence = Fin 0.9, entropy = Fin 0.1, softmax_output = [Fin 0.7, Fin 0.3],
         prediction = 0, label = 0\<rparr>,
        \<lparr>marginal_confidence = Fin 0.2, entropy = Fin 0.8, softmax_output = [Fin 0.4, Fin 0.6],
         prediction = 1, label = 1\<rparr>],
       [\<lparr>marginal_confidence = Fin 0.5, entropy = Fin 0.5, softmax_output = [Fin 0.5, Fin 0.5],
         prediction = 0, label = 1\<rparr>]]"
  let ?s = "\<lparr>tensors = [Fin 0, Fin 0], steps = [0, 0], raised = None, log = []\<rparr>"
  let ?d = "[[(Fin 0.9, Fin 0.1), (Fin 0.1, Fin 0.9)]]"
  note T = combined_score_by_context[of norm_tensor ?vl ?s 0 1 ?d 0 1 0]
  have len: "\<forall>xs. length (norm_tensor xs) = length xs" by (simp add: norm_tensor_length)
  have "all_score norm_tensor ?vl ! 2
      = combine (norm_tensor (map marginal_confidence (concat ?vl)) ! 2)
                (norm_tensor (map entropy (concat ?vl)) ! 2)"
    using T[THEN conjunct1, THEN mp, OF len, THEN conjunct2, THEN spec, of 2] by simp
  then have one: "all_score norm_tensor ?vl ! 2 = Fin (3 / 7)"
    by (simp add: norm_tensor_def teq_def combine_def tsub_def tmax_def tmin_def tmax2_def tmin2_def)
  have "target_weights (log (train 0 1 0 1 0 ?d ?s))
      = target_weights (log ?s)
        @ map2 (\<lambda>b x_t. map (\<lambda>(mc, en). running_normalize b (combine mc en)) x_t)
            (running_spec (tensors ?s ! 0, tensors ?s ! 1) (map raw_scores ?d)) ?d"
    using T[THEN conjunct2, THEN mp] by simp
  then have two: "target_weights (log (train 0 1 0 1 0 ?d ?s)) = [[Fin (89 / 88), Fin (1 / 792)]]"
    by (simp add: target_weights_def train_views_def List.map_filter_def update_spec_def
        raw_scores_def running_normalize_def combine_def tsub_def tmax_def tmin_def
        tmax2_def tmin2_def)
  show ?thesis using one two by simp
qed

text \<open>Claim C2 as the spec states it fails in \<^verbatim>\<open>train\<close>: the weights the loop computes
  differ from the spec's formula taken with the running normalization against the bounds
  of that iteration.\<close>

theorem combined_score_counterexample:
  "target_weights (log (train 0 1 0 1 0 [[(Fin 0.9, Fin 0.1), (Fin 0.1, Fin 0.9)]]
         \<lparr>tensors = [Fin 0, Fin 0], steps = [0, 0], raised = None, log = []\<rparr>)) ! 0
     \<noteq> map (\<lambda>(mc, en). score_spec (running_normalize
              (bounds_computed (log (train 0 1 0 1 0 [[(Fin 0.9, Fin 0.1), (Fin 0.1, Fin 0.9)]]
                 \<lparr>tensors = [Fin 0, Fin 0], steps = [0, 0], raised = None, log = []\<rparr>)) ! 0)) mc en)
          [(Fin 0.9, Fin 0.1), (Fin 0.1, Fin 0.9)]"
  by (simp add: train_log target_weights_def bounds_computed_def train_views_def List.map_filter_def
        update_spec_def raw_scores_def combine_def tsub_def tmax_def tmin_def tmax2_def tmin2_def
        running_normalize_def score_spec_def)

section \<open>The H-score\<close>

lemma tsum_Fin: "tsum (map Fin xs) = Fin (sum_list xs)"
proof -
  have "fold (\<lambda>x acc. tadd acc x) (map Fin xs) (Fin a) = Fin (a + sum_list xs)" for a
    by (induction xs arbitrary: a) (simp_all add: algebra_simps)
  then show ?thesis by (simp add: tsum_def)
qed

lemma tmean_Fin: "xs \<noteq> [] \<Longrightarrow> tmean (map Fin xs) = Fin (sum_list xs / real (length xs))"
  by (simp add: tmean_def tsum_Fin)

text \<open>
  Claim C9, as amended. For finite accuracies of the classes, of which the first \<open>n\<close>
  are the known common classes and the last is the unknown class, \<^verbatim>\<open>validate\<close> computes
  \<open>known\<close> as 100 times the mean of the first \<open>n\<close> accuracies, \<open>unknown\<close> as 100 times
  the last accuracy, and the H-score as \<^verbatim>\<open>2*known*unknown/(known+unknown)\<close>. Line 491
  has no guard: when \<open>known + unknown = 0\<close> the division raises
  \<^verbatim>\<open>ZeroDivisionError\<close> and \<^verbatim>\<open>validate\<close> returns nothing.
\<close>

theorem h_score_unguarded:
  fixes xs :: "real list"
  assumes "xs \<noteq> []" "0 < n" "n \<le> length xs"
  defines "k \<equiv> sum_list (take n xs) / real n * 100"
  defines "u \<equiv> last xs * 100"
  shows "known_acc (map Fin xs) n = Fin k \<and> unknown_acc (map Fin xs) = Fin u
    \<and> summary (map Fin xs) n =
       (if k + u = 0 then Inl ZeroDivisionError
        else Inr (Fin ((sum_list (take n xs) + last xs) / real (n + 1) * 100),
                  Fin (2 * k * u / (k + u))))"
proof -
  have tk: "take n (map Fin xs) = map Fin (take n xs)" by (simp add: take_map)
  have ne: "take n xs \<noteq> []" using assms(1,2) by (cases xs) auto
  have ln: "length (take n xs) = n" using assms(3) by simp
  have kn: "known_acc (map Fin xs) n = Fin k"
    using tmean_Fin[OF ne] assms(3) by (simp add: known_acc_def tk k_def min_def)
  have un: "unknown_acc (map Fin xs) = Fin u"
    using assms(1) by (simp add: unknown_acc_def last_map u_def)
  have ma: "tmul (tdiv (tadd (tsum (take n (map Fin xs))) (last (map Fin xs)))
                  (Fin (real (n + 1)))) (Fin 100)
             = Fin ((sum_list (take n xs) + last xs) / real (n + 1) * 100)"
    using assms(1) by (simp add: tk tsum_Fin last_map)
  show ?thesis
    unfolding summary_def Let_def kn un ma
    by (simp add: py_div_def kn un)
qed

text \<open>The spec's own example: known 80 and unknown 60 give the H-score 480/7, about
  68.57.\<close>

theorem h_score_unguarded_witness:
  "summary [Fin 0.8, Fin 0.8, Fin 0.6] 2 = Inr (Fin (220 / 3), Fin (480 / 7))"
  using h_score_unguarded[of "[0.8, 0.8, 0.6]" 2] by simp

text \<open>Claim C9 as the spec states it fails: with all accuracies zero the computation
  raises instead of yielding a value.\<close>

theorem h_score_zero_counterexample:
  "summary [Fin 0, Fin 0, Fin 0] 2 = Inl ZeroDivisionError"
  by (simp add: summary_def known_acc_def unknown_acc_def tmean_def tsum_def py_div_def)

text \<open>The same through the whole of \<^verbatim>\<open>validate\<close>, with the static normalization
  of the spec for \<^verbatim>\<open>norm\<close>: three samples, none of them classified right.\<close>

lemma validate_raises_on_zero_accuracies:
  "validate norm_tensor
      [[\<lparr>marginal_confidence = Fin 0.9, entropy = Fin 0.1, softmax_output = [Fin 0.3, Fin 0.7],
         prediction = 1, label = 0\<rparr>,
        \<lparr>marginal_confidence = Fin 0.8, entropy = Fin 0.2, softmax_output = [Fin 0.6, Fin 0.4],
         prediction = 0, label = 2\<rparr>,
        \<lparr>marginal_confidence = Fin 0.1, entropy = Fin 0.9, softmax_output = [Fin 0.5, Fin 0.5],
         prediction = 1, label = 1\<rparr>]] 2 2 0.7 = Inl ZeroDivisionError"
  by (simp add: validate_def confusion_def all_score_def all_labels_def all_predictions_def
      norm_tensor_def teq_def cm_update_def cm_compute_def ConfusionMatrix_def summary_def known_acc_def
      unknown_acc_def tmean_def tsum_def py_div_def combine_def tsub_def tmax_def tmin_def
      tmax2_def tmin2_def Let_def upt_rec)

section \<open>The unknown class in the evaluation\<close>

lemma all_predictions_nth:
  "i < length predictions \<Longrightarrow> i < length score \<Longrightarrow>
   all_predictions unknown_class thr score predictions ! i
     = (if tlt (score ! i) (Fin thr) then unknown_class else predictions ! i)"
  by (simp add: all_predictions_def)

lemma all_labels_nth:
  "i < length labels \<Longrightarrow>
   all_labels unknown_class labels ! i
     = (if unknown_class \<le> labels ! i then unknown_class else labels ! i)"
  by (simp add: all_labels_def)

lemma all_labels_le: "i < length labels \<Longrightarrow> all_labels unknown_class labels ! i \<le> unknown_class"
  by (simp add: all_labels_nth)

lemma cm_update_shape:
  "length (mat (cm_update ls ps cm)) = cm_classes cm"
  "row \<in> set (mat (cm_update ls ps cm)) \<Longrightarrow> length row = cm_classes cm"
  by (auto simp: cm_update_def)

lemma cm_update_counts:
  assumes "i < length ls" "i < length ps" "ls ! i < cm_classes cm" "ps ! i < cm_classes cm"
  shows "1 \<le> mat (cm_update ls ps cm) ! (ls ! i) ! (ps ! i)"
proof -
  have "(ls ! i, ps ! i) \<in> set (zip ls ps)"
    using assms(1,2) by (auto simp: set_zip)
  then have "(ls ! i, ps ! i) \<in> set (filter (\<lambda>p. p = (ls ! i, ps ! i)) (zip ls ps))"
    by simp
  then have "0 < length (filter (\<lambda>p. p = (ls ! i, ps ! i)) (zip ls ps))"
    by (rule length_pos_if_in_set)
  then show ?thesis
    using assms(3,4) by (simp add: cm_update_def Suc_le_eq)
qed

text \<open>
  Claim C8. In \<^verbatim>\<open>validate\<close>, with \<open>K\<close> the number of known classes, the confusion matrix
  is updated with the remapped labels and the overwritten predictions, and it has \<open>K + 1\<close>
  rows of \<open>K + 1\<close> columns. For every sample of the pass: when its combined score is below
  the threshold its prediction becomes \<open>K\<close>, whatever the argmax was, and the sample is
  counted in column \<open>K\<close> of the row of its label; otherwise its prediction stays; a label
  of \<open>K\<close> or more becomes \<open>K\<close>, and a smaller label stays. The normalizer may be any
  function that keeps the length of its argument.
\<close>

theorem unknown_remap_before_confusion:
  fixes val_loader :: "sample list list"
  defines "preds \<equiv> concat (map (map prediction) val_loader)"
  defines "labs \<equiv> concat (map (map label) val_loader)"
  assumes len: "\<forall>xs. length (norm' xs) = length xs"
  shows "confusion norm' val_loader K thr
           = cm_update (all_labels K labs)
               (all_predictions K thr (all_score norm' val_loader) preds)
               (ConfusionMatrix (K + 1))
    \<and> length (mat (confusion norm' val_loader K thr)) = K + 1
    \<and> (\<forall>row \<in> set (mat (confusion norm' val_loader K thr)). length row = K + 1)
    \<and> (\<forall>i < length (concat val_loader).
          (tlt (all_score norm' val_loader ! i) (Fin thr) \<longrightarrow>
             all_predictions K thr (all_score norm' val_loader) preds ! i = K
             \<and> 1 \<le> mat (confusion norm' val_loader K thr) ! (all_labels K labs ! i) ! K)
        \<and> (\<not> tlt (all_score norm' val_loader ! i) (Fin thr) \<longrightarrow>
             all_predictions K thr (all_score norm' val_loader) preds ! i = preds ! i)
        \<and> (K \<le> labs ! i \<longrightarrow> all_labels K labs ! i = K)
        \<and> (labs ! i < K \<longrightarrow> all_labels K labs ! i = labs ! i))"
proof -
  let ?sc = "all_score norm' val_loader"
  let ?ps = "all_predictions K thr ?sc preds"
  let ?ls = "all_labels K labs"
  have c: "confusion norm' val_loader K thr = cm_update ?ls ?ps (ConfusionMatrix (K + 1))"
    by (simp add: confusion_def Let_def preds_def labs_def)
  have k: "cm_classes (ConfusionMatrix (K + 1)) = K + 1" by (simp add: ConfusionMatrix_def)
  have lp: "length preds = length (concat val_loader)" "length labs = length (concat val_loader)"
    by (simp_all add: preds_def labs_def map_concat[symmetric])
  have ls: "length ?sc = length (concat val_loader)"
    using len by (simp add: all_score_length)
  have shape: "length (mat (confusion norm' val_loader K thr)) = K + 1"
    "\<forall>row \<in> set (mat (confusion norm' val_loader K thr)). length row = K + 1"
    unfolding c using k by (auto simp: cm_update_shape)
  have per: "(tlt (?sc ! i) (Fin thr) \<longrightarrow>
             ?ps ! i = K
             \<and> 1 \<le> mat (confusion norm' val_loader K thr) ! (?ls ! i) ! K)
        \<and> (\<not> tlt (?sc ! i) (Fin thr) \<longrightarrow> ?ps ! i = preds ! i)
        \<and> (K \<le> labs ! i \<longrightarrow> ?ls ! i = K)
        \<and> (labs ! i < K \<longrightarrow> ?ls ! i = labs ! i)"
    if i: "i < length (concat val_loader)" for i
  proof -
    have p: "?ps ! i = (if tlt (?sc ! i) (Fin thr) then K else preds ! i)"
      using i lp ls by (simp add: all_predictions_nth)
    have l: "?ls ! i = (if K \<le> labs ! i then K else labs ! i)"
      using i lp by (simp add: all_labels_nth)
    have cnt: "1 \<le> mat (confusion norm' val_loader K thr) ! (?ls ! i) ! K"
      if b: "tlt (?sc ! i) (Fin thr)"
    proof -
      have il: "i < length ?ls" "i < length ?ps"
        using i lp ls by (simp_all add: all_labels_def all_predictions_def)
      have "?ls ! i < cm_classes (ConfusionMatrix (K + 1))" using l k by simp
      moreover have "?ps ! i < cm_classes (ConfusionMatrix (K + 1))" using p b k by simp
      ultimately have "1 \<le> mat (cm_update ?ls ?ps (ConfusionMatrix (K + 1))) ! (?ls ! i) ! (?ps ! i)"
        using cm_update_counts[OF il] by blast
      then show ?thesis using p b c by simp
    qed
    show ?thesis using p l cnt by auto
  qed
  show ?thesis using c shape per by blast
qed

text \<open>Three samples with argmax 0 and two known classes: the second and the third
  score below 0.7 and are counted under the unknown class 2, though their argmax is 0;
  the label 5 of the third is counted in row 2.\<close>

theorem unknown_remap_before_confusion_witness:
  "mat (confusion norm_tensor
      [[\<lparr>marginal_confidence = Fin 0.9, entropy = Fin 0.1, softmax_output = [Fin 0.7, Fin 0.3],
         prediction = 0, label = 0\<rparr>,
        \<lparr>marginal_confidence = Fin 0.2, entropy = Fin 0.8, softmax_output = [Fin 0.6, Fin 0.4],
         prediction = 0, label = 1\<rparr>],
       [\<lparr>marginal_confidence = Fin 0.5, entropy = Fin 0.5, softmax_output = [Fin 0.5, Fin 0.5],
         prediction = 0, label = 5\<rparr>]] 2 0.7) = [[1, 0, 0], [0, 0, 1], [0, 0, 1]]
   \<and> all_predictions 2 0.7 [Fin 1, Fin 0, Fin (3 / 7)] [0, 0, 0] ! 1 = 2
   \<and> all_labels 2 [0, 1, 5] ! 2 = 2"
proof -
  let ?vl = "[[\<lparr>marginal_confidence = Fin 0.9, entropy = Fin 0.1, softmax_output = [Fin 0.7, Fin 0.3],
         prediction = 0, label = 0\<rparr>,
        \<lparr>marginal_confidence = Fin 0.2, entropy = Fin 0.8, softmax_output = [Fin 0.6, Fin 0.4],
         prediction = 0, label = 1\<rparr>],
       [\<lparr>marginal_confidence = Fin 0.5, entropy = Fin 0.5, softmax_output = [Fin 0.5, Fin 0.5],
         prediction = 0, label = 5\<rparr>]]"
  have len: "\<forall>xs. length (norm_tensor xs) = length xs"
    by (simp add: norm_tensor_length)
  note T = unknown_remap_before_confusion[OF len, of ?vl 2 "0.7"]
  have sc: "all_score norm_tensor ?vl = [Fin 1, Fin 0, Fin (3 / 7)]"
    by (simp add: all_score_def norm_tensor_def teq_def combine_def tsub_def tmax_def tmin_def
        tmax2_def tmin2_def Let_def)
  have "confusion norm_tensor ?vl 2 0.7
      = cm_update (all_labels 2 (concat (map (map label) ?vl)))
          (all_predictions 2 0.7 (all_score norm_tensor ?vl) (concat (map (map prediction) ?vl)))
          (ConfusionMatrix (2 + 1))"
    using T[THEN conjunct1] .
  then have m: "mat (confusion norm_tensor ?vl 2 0.7) = [[1, 0, 0], [0, 0, 1], [0, 0, 1]]"
    unfolding sc
    by (simp add: all_labels_def all_predictions_def cm_update_def ConfusionMatrix_def upt_rec)
  note each = T[THEN conjunct2, THEN conjunct2, THEN conjunct2, unfolded sc]
  have p: "all_predictions 2 0.7 [Fin 1, Fin 0, Fin (3 / 7)] [0, 0, 0] ! 1 = 2"
    using each[THEN spec, of 1] by simp
  have l: "all_labels 2 [0, 1, 5] ! 2 = 2"
    using each[THEN spec, of 2] by simp
  show ?thesis using m p l by simp
qed

section \<open>The class weights of the source\<close>



lemma mean_dim0_empty: "mean_dim0 C [] = replicate C NaN"
  by (simp add: mean_dim0_def tmean_def tsum_def map_replicate_const)

lemma selected_empty:
  assumes "\<forall>sc \<in> set score. \<not> tle (Fin thr) sc"
  shows "selected all_output score thr = []"
proof -
  have "filter (\<lambda>(row, sc). tle (Fin thr) sc) (zip all_output score) = []"
    using assms by (auto simp: filter_empty_conv dest: set_zip_rightD)
  then show ?thesis by (simp add: selected_def)
qed

lemma tmin_NaN: "tmin NaN xs = NaN"
proof -
  have "fold tmin2 xs NaN = NaN" by (induction xs) (simp_all add: tmin2_def)
  then show ?thesis by (simp add: tmin_def)
qed

lemma norm_tensor_NaN: "norm_tensor (replicate C NaN) = replicate C NaN"
proof (cases C)
  case 0
  then show ?thesis by (simp add: norm_tensor_def)
next
  case (Suc n)
  have "tdiv (tsub v NaN) d = NaN" for v d by (cases v) (simp_all add: tsub_def)
  then show ?thesis
    using Suc by (simp add: norm_tensor_def teq_def Let_def tmin_NaN map_replicate_const)
qed

lemma cut_mask_NaN: "cut_mask c (replicate C NaN) = replicate C (Fin 0)"
  by (simp add: cut_mask_def)




text \<open>
  Claim C7, as amended. When no combined score reaches \<open>thr\<close>, the pass neither fails nor
  falls back: the mean over the empty selection is \<open>NaN\<close> in every class,
  \<^verbatim>\<open>calc_source_class_weight\<close> hands that vector to the normalizer and returns what the
  normalizer gives (a result, \<open>Inr\<close>, not an exception). The static normalization of the
  spec maps the vector to itself (its guard does not apply, a comparison with \<open>NaN\<close>
  being false), and the mask of line 200 made from \<open>NaN\<close> weights is 0 in every
  class.
\<close>

theorem empty_selection_unhandled:
  assumes "val_loader \<noteq> []"
    and "\<forall>sc \<in> set (all_score norm' val_loader). \<not> tle (Fin thr) sc"
  shows "calc_source_class_weight norm' val_loader C thr = Inr (norm' (replicate C NaN))
    \<and> norm_tensor (replicate C NaN) = replicate C NaN
    \<and> cut_mask c (replicate C NaN) = replicate C (Fin 0)"
  using assms
  by (simp add: calc_source_class_weight_def class_weight_def Let_def selected_empty
      mean_dim0_empty norm_tensor_NaN cut_mask_NaN)

text \<open>Two samples whose scores are both 0.5, below the threshold 0.6.\<close>

theorem empty_selection_unhandled_witness:
  "calc_source_class_weight norm_tensor
      [[\<lparr>marginal_confidence = Fin 0.9, entropy = Fin 0.9, softmax_output = [Fin 0.7, Fin 0.3],
         prediction = 0, label = 0\<rparr>,
        \<lparr>marginal_confidence = Fin 0.2, entropy = Fin 0.2, softmax_output = [Fin 0.4, Fin 0.6],
         prediction = 1, label = 1\<rparr>]] 2 0.6 = Inr [NaN, NaN]"
proof -
  let ?vl = "[[\<lparr>marginal_confidence = Fin 0.9, entropy = Fin 0.9, softmax_output = [Fin 0.7, Fin 0.3],
         prediction = 0, label = 0\<rparr>,
        \<lparr>marginal_confidence = Fin 0.2, entropy = Fin 0.2, softmax_output = [Fin 0.4, Fin 0.6],
         prediction = 1, label = 1\<rparr>]]"
  have sc: "all_score norm_tensor ?vl = [Fin (1 / 2), Fin (1 / 2)]"
    by (simp add: all_score_def norm_tensor_def teq_def combine_def tsub_def tmax_def tmin_def
        tmax2_def tmin2_def Let_def)
  have b: "?vl \<noteq> []" by simp
  have c: "\<forall>sc \<in> set (all_score norm_tensor ?vl). \<not> tle (Fin 0.6) sc"
    unfolding sc by simp
  from empty_selection_unhandled[OF b c, of 2 0]
  show ?thesis
    by (simp add: numeral_2_eq_2)
qed

text \<open>Claim C7 as the spec states it fails: at that input the function returns the
  weights \<open>NaN\<close> and raises nothing, and the mask is 0 for both classes.\<close>

theorem empty_selection_counterexample:
  "calc_source_class_weight norm_tensor
      [[\<lparr>marginal_confidence = Fin 0.9, entropy = Fin 0.9, softmax_output = [Fin 0.7, Fin 0.3],
         prediction = 0, label = 0\<rparr>,
        \<lparr>marginal_confidence = Fin 0.2, entropy = Fin 0.2, softmax_output = [Fin 0.4, Fin 0.6],
         prediction = 1, label = 1\<rparr>]] 2 0.6 = Inr [NaN, NaN]
   \<and> cut_mask 0.1 [NaN, NaN] = [Fin 0, Fin 0]"
  by (simp add: calc_source_class_weight_def class_weight_def selected_def mean_dim0_def
      all_score_def norm_tensor_def teq_def combine_def tsub_def tmax_def tmin_def tmax2_def tmin2_def
      tmean_def tsum_def cut_mask_def Let_def upt_rec)

section \<open>The log of a whole run\<close>

lemma new_stepper_simps [simp]:
  "tensors (snd (new_stepper s)) = tensors s" "raised (snd (new_stepper s)) = raised s"
  "log (snd (new_stepper s)) = log s" "steps (snd (new_stepper s)) = steps s @ [0]"
  "fst (new_stepper s) = length (steps s)"
  by (simp_all add: new_stepper_def)

lemma new_tensor_simps [simp]:
  "tensors (snd (new_tensor v s)) = tensors s @ [v]" "raised (snd (new_tensor v s)) = raised s"
  "log (snd (new_tensor v s)) = log s" "steps (snd (new_tensor v s)) = steps s"
  "fst (new_tensor v s) = length (tensors s)"
  by (simp_all add: new_tensor_def)

lemma pretrain_iter_fold:
  "raised s = None \<Longrightarrow>
   log (fold (pretrain_iter po ps ep) is s) = log s @ map (Pretrain ep) is
   \<and> raised (fold (pretrain_iter po ps ep) is s) = None
   \<and> tensors (fold (pretrain_iter po ps ep) is s) = tensors s
   \<and> length (steps (fold (pretrain_iter po ps ep) is s)) = length (steps s)"
  by (induction "is" arbitrary: s) (simp_all add: pretrain_iter_def)

lemma pretrain_run:
  "raised s = None \<Longrightarrow>
   log (pretrain po ps ep iters s) = log s @ map (Pretrain ep) [0..<nat iters]
   \<and> raised (pretrain po ps ep iters s) = None
   \<and> tensors (pretrain po ps ep iters s) = tensors s
   \<and> length (steps (pretrain po ps ep iters s)) = length (steps s)"
  unfolding pretrain_def by (rule pretrain_iter_fold)

lemma pretrain_epochs_fold:
  "raised s = None \<Longrightarrow>
   log (fold (\<lambda>ep. pretrain po ps ep iters) es s)
     = log s @ concat (map (\<lambda>ep. map (Pretrain ep) [0..<nat iters]) es)
   \<and> raised (fold (\<lambda>ep. pretrain po ps ep iters) es s) = None
   \<and> tensors (fold (\<lambda>ep. pretrain po ps ep iters) es s) = tensors s
   \<and> length (steps (fold (\<lambda>ep. pretrain po ps ep iters) es s)) = length (steps s)"
proof (induction es arbitrary: s)
  case Nil
  then show ?case by simp
next
  case (Cons e es)
  from pretrain_run[OF Cons.prems, of po ps e iters]
  have p: "log (pretrain po ps e iters s) = log s @ map (Pretrain e) [0..<nat iters]"
    "raised (pretrain po ps e iters s) = None"
    "tensors (pretrain po ps e iters s) = tensors s"
    "length (steps (pretrain po ps e iters s)) = length (steps s)"
    by simp_all
  from Cons.IH[OF p(2)] show ?case by (simp add: p)
qed

lemma stage1_run:
  "raised s = None \<Longrightarrow>
   log (stage1 a s) = log s @ pretrain_trace a
   \<and> raised (stage1 a s) = None
   \<and> tensors (stage1 a s) = tensors s
   \<and> length (steps (stage1 a s)) = length (steps s) + 2"
  using pretrain_epochs_fold[of "snd (new_stepper (snd (new_stepper s)))"
      "length (steps s)" "Suc (length (steps s))" "iters_per_epoch a" "[0..<nat (epochs_pretrain a)]"]
  by (simp add: stage1_def pretrain_trace_def case_prod_unfold Let_def)

lemma train_ens_iter_fold_log:
  "raised s = None \<Longrightarrow>
   log (fold (train_ens_iter opt sch k ep) is s) = log s @ map (TrainEns k ep) is
   \<and> raised (fold (train_ens_iter opt sch k ep) is s) = None
   \<and> tensors (fold (train_ens_iter opt sch k ep) is s) = tensors s
   \<and> length (steps (fold (train_ens_iter opt sch k ep) is s)) = length (steps s)"
  by (induction "is" arbitrary: s) (simp_all add: train_ens_iter_def)

lemma train_ens_classifier_run:
  "raised s = None \<Longrightarrow>
   log (train_ens_classifier opt sch k ep iters s)
     = log s @ map (TrainEns k ep) [0..<nat (iters div 2)]
   \<and> raised (train_ens_classifier opt sch k ep iters s) = None
   \<and> tensors (train_ens_classifier opt sch k ep iters s) = tensors s
   \<and> length (steps (train_ens_classifier opt sch k ep iters s)) = length (steps s)"
  unfolding train_ens_classifier_def by (rule train_ens_iter_fold_log)

lemma train_ens_classifier_raised:
  "raised s \<noteq> None \<Longrightarrow> train_ens_classifier opt sch k ep iters s = s"
proof -
  have "raised s \<noteq> None \<Longrightarrow> fold (train_ens_iter opt sch k ep) is s = s" for "is"
    by (induction "is") (simp_all add: train_ens_iter_def)
  then show "raised s \<noteq> None \<Longrightarrow> ?thesis" by (simp add: train_ens_classifier_def)
qed

lemma ens_heads_fold:
  "raised s = None \<Longrightarrow>
   log (fold (\<lambda>i. train_ens_classifier opt (scheds ! i) i ep iters) ks s)
     = log s @ concat (map (\<lambda>i. map (TrainEns i ep) [0..<nat (iters div 2)]) ks)
   \<and> raised (fold (\<lambda>i. train_ens_classifier opt (scheds ! i) i ep iters) ks s) = None
   \<and> tensors (fold (\<lambda>i. train_ens_classifier opt (scheds ! i) i ep iters) ks s) = tensors s
   \<and> length (steps (fold (\<lambda>i. train_ens_classifier opt (scheds ! i) i ep iters) ks s))
       = length (steps s)"
proof (induction ks arbitrary: s)
  case Nil
  then show ?case by simp
next
  case (Cons k ks)
  from train_ens_classifier_run[OF Cons.prems, of opt "scheds ! k" k ep iters]
  have p: "log (train_ens_classifier opt (scheds ! k) k ep iters s)
             = log s @ map (TrainEns k ep) [0..<nat (iters div 2)]"
    "raised (train_ens_classifier opt (scheds ! k) k ep iters s) = None"
    "tensors (train_ens_classifier opt (scheds ! k) k ep iters s) = tensors s"
    "length (steps (train_ens_classifier opt (scheds ! k) k ep iters s)) = length (steps s)"
    by simp_all
  from Cons.IH[OF p(2)] show ?case by (simp add: p)
qed

lemma ens_refresh_run:
  "raised s = None \<Longrightarrow>
   log (ens_refresh opt scheds ep iters s) = log s @ ens_trace ep iters
   \<and> raised (ens_refresh opt scheds ep iters s) = None
   \<and> tensors (ens_refresh opt scheds ep iters s) = tensors s
   \<and> length (steps (ens_refresh opt scheds ep iters s)) = length (steps s)"
  unfolding ens_refresh_def ens_trace_def by (rule ens_heads_fold)

lemma ens_refresh_raised: "raised s \<noteq> None \<Longrightarrow> ens_refresh opt scheds ep iters s = s"
proof -
  have "raised s \<noteq> None \<Longrightarrow>
        fold (\<lambda>i. train_ens_classifier opt (scheds ! i) i ep iters) ks s = s" for ks
    by (induction ks) (simp_all add: train_ens_classifier_raised)
  then show "raised s \<noteq> None \<Longrightarrow> ?thesis" by (simp add: ens_refresh_def)
qed

lemma call_validate_run:
  "raised s = None \<Longrightarrow>
   log (call_validate ds r s) = log s @ validate_trace ds r
   \<and> (raised (call_validate ds r s) = None) = (\<not> isl r)
   \<and> tensors (call_validate ds r s) = tensors s
   \<and> steps (call_validate ds r s) = steps s"
  by (cases r) (auto simp: call_validate_def validate_trace_def)

lemma call_validate_raised: "raised s \<noteq> None \<Longrightarrow> call_validate ds r s = s"
  by (simp add: call_validate_def)

lemma train_raised: "raised s \<noteq> None \<Longrightarrow> train opt sch u l ep draws s = s"
  by (simp add: train_def train_loop_raised)

lemma train_run:
  assumes "raised s = None" "u < length (tensors s)" "l < length (tensors s)"
  shows "log (train opt sch u l ep draws s) = log s @ train_trace ep 0 (tensors s ! u, tensors s ! l) draws
     \<and> (raised (train opt sch u l ep draws s) = None) = ([] \<notin> set draws)
     \<and> (\<exists>T. tensors (train opt sch u l ep draws s) = tensors s @ T)
     \<and> length (steps (train opt sch u l ep draws s)) = length (steps s)"
  using train_loop_run[OF assms, of opt sch ep 0 draws] by (auto simp: train_def)

lemma epoch_body_raised:
  "raised s \<noteq> None \<Longrightarrow> epoch_body norm' a w opt sch eo scheds u l ep s = s"
  by (simp add: epoch_body_def Let_def train_raised ens_refresh_raised call_validate_raised)

lemma epoch_body_run:
  assumes "raised s = None" "u < length (tensors s)" "l < length (tensors s)"
  shows "log (epoch_body norm' a w opt sch eo scheds u l ep s)
           = log s @ epoch_trace norm' a w (tensors s ! u, tensors s ! l) ep
     \<and> (raised (epoch_body norm' a w opt sch eo scheds u l ep s) = None) = epoch_ok norm' a w ep
     \<and> (\<exists>T. tensors (epoch_body norm' a w opt sch eo scheds u l ep s) = tensors s @ T)
     \<and> length (steps (epoch_body norm' a w opt sch eo scheds u l ep s)) = length (steps s)"
proof -
  let ?d = "epoch_draws a w ep"
  let ?s1 = "train opt sch u l ep ?d s"
  let ?s2 = "ens_refresh eo scheds ep (iters_per_epoch a) ?s1"
  let ?r = "epoch_validate norm' a w ep"
  have eb: "epoch_body norm' a w opt sch eo scheds u l ep s = call_validate (val_dataset a) ?r ?s2"
    by (simp add: epoch_body_def Let_def epoch_draws_def epoch_validate_def)
  note tr = train_run[OF assms, of opt sch ep ?d]
  have t: "log ?s1 = log s @ train_trace ep 0 (tensors s ! u, tensors s ! l) ?d"
       "(raised ?s1 = None) = ([] \<notin> set ?d)"
       "\<exists>T. tensors ?s1 = tensors s @ T" "length (steps ?s1) = length (steps s)"
    using tr by blast+
  show ?thesis
  proof (cases "[] \<in> set ?d")
    case True
    then have r: "raised ?s1 \<noteq> None" using t(2) by simp
    then have "call_validate (val_dataset a) ?r ?s2 = ?s1"
      by (simp add: ens_refresh_raised call_validate_raised)
    then show ?thesis
      using True t r by (simp add: eb epoch_trace_def epoch_ok_def)
  next
    case False
    then have r: "raised ?s1 = None" using t(2) by simp
    from ens_refresh_run[OF r, of eo scheds ep "iters_per_epoch a"]
    have e: "log ?s2 = log ?s1 @ ens_trace ep (iters_per_epoch a)" "raised ?s2 = None"
      "tensors ?s2 = tensors ?s1" "length (steps ?s2) = length (steps ?s1)"
      by simp_all
    from call_validate_run[OF e(2), of "val_dataset a" ?r]
    have v: "log (call_validate (val_dataset a) ?r ?s2) = log ?s2 @ validate_trace (val_dataset a) ?r"
      "(raised (call_validate (val_dataset a) ?r ?s2) = None) = (\<not> isl ?r)"
      "tensors (call_validate (val_dataset a) ?r ?s2) = tensors ?s2"
      "steps (call_validate (val_dataset a) ?r ?s2) = steps ?s2"
      by simp_all
    show ?thesis
      using False by (simp add: eb v e t epoch_trace_def epoch_ok_def)
  qed
qed

lemma epoch_loop_raised:
  "raised s \<noteq> None \<Longrightarrow> fold (epoch_body norm' a w opt sch eo scheds u l) es s = s"
  by (induction es) (simp_all add: epoch_body_raised)

lemma epoch_loop_run:
  assumes "raised s = None" "u < length (tensors s)" "l < length (tensors s)"
  shows "log (fold (epoch_body norm' a w opt sch eo scheds u l) es s)
           = log s @ loop_trace (epoch_trace norm' a w (tensors s ! u, tensors s ! l))
                        (epoch_ok norm' a w) es
     \<and> (raised (fold (epoch_body norm' a w opt sch eo scheds u l) es s) = None)
         = (\<forall>e \<in> set es. epoch_ok norm' a w e)
     \<and> (\<exists>T. tensors (fold (epoch_body norm' a w opt sch eo scheds u l) es s) = tensors s @ T)"
  using assms
proof (induction es arbitrary: s)
  case Nil
  then show ?case by simp
next
  case (Cons e es)
  let ?s1 = "epoch_body norm' a w opt sch eo scheds u l e s"
  note eb = epoch_body_run[OF Cons.prems, of norm' a w opt sch eo scheds e]
  have b: "log ?s1 = log s @ epoch_trace norm' a w (tensors s ! u, tensors s ! l) e"
       "(raised ?s1 = None) = epoch_ok norm' a w e"
    using eb by blast+
  obtain T where bT: "tensors ?s1 = tensors s @ T" using eb by blast
  show ?case
  proof (cases "epoch_ok norm' a w e")
    case False
    then have "raised ?s1 \<noteq> None" using b(2) by simp
    then have "fold (epoch_body norm' a w opt sch eo scheds u l) es ?s1 = ?s1"
      by (rule epoch_loop_raised)
    then show ?thesis using False b bT by simp
  next
    case True
    then have r: "raised ?s1 = None" using b(2) by simp
    have a1: "u < length (tensors ?s1)" "l < length (tensors ?s1)"
      using Cons.prems(2,3) bT by simp_all
    have same: "tensors ?s1 ! u = tensors s ! u" "tensors ?s1 ! l = tensors s ! l"
      using Cons.prems(2,3) bT by (simp_all add: nth_append)
    note IH = Cons.IH[OF r a1, unfolded same]
    have ih: "log (fold (epoch_body norm' a w opt sch eo scheds u l) es ?s1)
             = log ?s1 @ loop_trace (epoch_trace norm' a w (tensors s ! u, tensors s ! l))
                         (epoch_ok norm' a w) es"
          "(raised (fold (epoch_body norm' a w opt sch eo scheds u l) es ?s1) = None)
             = (\<forall>e \<in> set es. epoch_ok norm' a w e)"
      using IH by blast+
    obtain T' where
      "tensors (fold (epoch_body norm' a w opt sch eo scheds u l) es ?s1) = tensors ?s1 @ T'"
      using IH by blast
    then have "tensors (fold (epoch_body norm' a w opt sch eo scheds u l) es ?s1)
        = tensors s @ (T @ T')"
      by (simp add: bT)
    then show ?thesis using True ih b by auto
  qed
qed

lemma weight_fold:
  "fold (weight_batch ds) (enumerate i bs) (acc, s)
     = (acc @ bs, s\<lparr>log := log s @ map (WeightBatch ds) [i..<i + length bs]\<rparr>)"
proof (induction bs arbitrary: i acc s)
  case Nil
  then show ?case by simp
next
  case (Cons b bs)
  have u: "[i..<i + length (b # bs)] = i # [Suc i..<Suc i + length bs]"
    by (subst upt_rec) simp
  have b: "weight_batch ds (i, b) (acc, s) = (acc @ [b], emit (WeightBatch ds i) s)"
    by (simp add: weight_batch_def)
  show ?case
    unfolding u by (simp add: b Cons.IH emit_def)
qed

lemma weight_loop_run:
  "weight_loop (DataLoader ds bs) s
     = (bs, s\<lparr>log := log s @ EnterNoGrad # map (WeightBatch ds) [0..<length bs] @ [ExitNoGrad]\<rparr>)"
  using weight_fold[of ds 0 bs "[]" "emit EnterNoGrad s"]
  by (simp add: weight_loop_def DataLoader_def emit_def)

lemma call_calc_run:
  "raised s = None \<Longrightarrow>
   log (call_calc_source_class_weight norm' (DataLoader ds bs) C thr c s)
     = log s @ EnterNoGrad # map (WeightBatch ds) [0..<length bs]
       @ ExitNoGrad
       # (case calc_source_class_weight norm' bs C thr of
            Inl e \<Rightarrow> [] | Inr x \<Rightarrow> [PrintWeight (cut_mask c x)])
   \<and> (raised (call_calc_source_class_weight norm' (DataLoader ds bs) C thr c s) = None)
       = (\<not> isl (calc_source_class_weight norm' bs C thr))
   \<and> tensors (call_calc_source_class_weight norm' (DataLoader ds bs) C thr c s) = tensors s
   \<and> steps (call_calc_source_class_weight norm' (DataLoader ds bs) C thr c s) = steps s"
  by (cases "calc_source_class_weight norm' bs C thr")
     (auto simp: call_calc_source_class_weight_def weight_loop_run)

lemma stage2_setup_run:
  assumes "raised s = None"
  shows "fst (stage2_setup norm' a w s)
           = (length (steps s), length (steps s) + 1, length (steps s) + 2,
              replicate 5 (length (steps s) + 3), length (tensors s), length (tensors s) + 1)
     \<and> log (snd (stage2_setup norm' a w s)) = log s @ weight_trace norm' a w
     \<and> (raised (snd (stage2_setup norm' a w s)) = None) = (weight_pass w \<noteq> [])
     \<and> tensors (snd (stage2_setup norm' a w s)) = tensors s @ [Fin 0, Fin 0]
     \<and> steps (snd (stage2_setup norm' a w s)) = steps s @ [0, 0, 0, 0]"
proof -
  let ?s6 = "snd (new_tensor (Fin 0) (snd (new_tensor (Fin 0)
               (snd (new_stepper (snd (new_stepper (snd (new_stepper (snd (new_stepper s)))))))))))"
  let ?r = "calc_source_class_weight norm' (weight_pass w) (num_classes w) (src_threshold a)"
  have r6: "raised ?s6 = None" using assms by simp
  have st: "stage2_setup norm' a w s
      = ((length (steps s), length (steps s) + 1, length (steps s) + 2,
          replicate 5 (length (steps s) + 3), length (tensors s), length (tensors s) + 1),
         call_calc_source_class_weight norm' (DataLoader (val_dataset a) (weight_pass w))
           (num_classes w) (src_threshold a) (cut a) ?s6)"
    by (simp add: stage2_setup_def Let_def case_prod_unfold)
  have isl: "isl ?r = (weight_pass w = [])"
    by (simp add: calc_source_class_weight_def)
  show ?thesis
    unfolding st
    using call_calc_run[OF r6, of norm' "val_dataset a" "weight_pass w" "num_classes w"
        "src_threshold a" "cut a"]
    by (simp add: weight_trace_def isl)
qed

lemma stage2_run:
  assumes "raised s = None"
  shows "log (stage2 norm' a w s)
     = log s @ weight_trace norm' a w
       @ (if weight_pass w = [] then []
          else loop_trace (epoch_trace norm' a w (Fin 0, Fin 0)) (epoch_ok norm' a w)
                 [0..<nat (epochs a)])
    \<and> (raised (stage2 norm' a w s) = None)
        = (weight_pass w \<noteq> [] \<and> (\<forall>e \<in> set [0..<nat (epochs a)]. epoch_ok norm' a w e))"
proof -
  let ?s1 = "snd (stage2_setup norm' a w s)"
  let ?u = "length (tensors s)"
  let ?l = "length (tensors s) + 1"
  note su = stage2_setup_run[OF assms, of norm' a w]
  have f: "fst (stage2_setup norm' a w s)
           = (length (steps s), length (steps s) + 1, length (steps s) + 2,
              replicate 5 (length (steps s) + 3), ?u, ?l)"
    and lg: "log ?s1 = log s @ weight_trace norm' a w"
    and rs: "(raised ?s1 = None) = (weight_pass w \<noteq> [])"
    and tn: "tensors ?s1 = tensors s @ [Fin 0, Fin 0]"
    using su by blast+
  have st: "stage2 norm' a w s
      = fold (epoch_body norm' a w (length (steps s)) (length (steps s) + 1) (length (steps s) + 2)
                (replicate 5 (length (steps s) + 3)) ?u ?l) [0..<nat (epochs a)] ?s1"
    using f by (simp add: stage2_def case_prod_unfold)
  show ?thesis
  proof (cases "weight_pass w = []")
    case True
    then have "raised ?s1 \<noteq> None" using rs by simp
    then show ?thesis
      using True lg by (simp add: st epoch_loop_raised)
  next
    case False
    then have r: "raised ?s1 = None" using rs by simp
    have a1: "?u < length (tensors ?s1)" "?l < length (tensors ?s1)" by (simp_all add: tn)
    have rd: "tensors ?s1 ! ?u = Fin 0" "tensors ?s1 ! ?l = Fin 0"
      by (simp_all add: tn nth_append)
    from epoch_loop_run[OF r a1, of norm' a w "length (steps s)" "length (steps s) + 1"
        "length (steps s) + 2" "replicate 5 (length (steps s) + 3)" "[0..<nat (epochs a)]"]
    show ?thesis
      unfolding rd using False lg by (simp add: st)
  qed
qed

lemma init_simps [simp]:
  "raised init = None" "log init = []" "tensors init = []" "steps init = []"
  by (simp_all add: init_def)

lemma main_log:
  assumes "phase a = Train"
  shows "log (main norm' a w) = main_trace norm' a w"
proof -
  let ?s1 = "stage1 a init"
  let ?s2 = "stage2 norm' a w ?s1"
  have m: "main norm' a w = call_validate (test_dataset a) (test_validate norm' a w) ?s2"
    using assms by (simp add: main_def test_validate_def)
  have s1: "log ?s1 = pretrain_trace a" "raised ?s1 = None"
    using stage1_run[of init a] by simp_all
  note s2 = stage2_run[OF s1(2), of norm' a w]
  show ?thesis
  proof (cases "weight_pass w \<noteq> [] \<and> (\<forall>e \<in> set [0..<nat (epochs a)]. epoch_ok norm' a w e)")
    case True
    then have r: "raised ?s2 = None" using s2 by blast
    show ?thesis
      using True s2 call_validate_run[OF r, of "test_dataset a" "test_validate norm' a w"]
      by (simp add: m main_trace_def s1)
  next
    case False
    then have r: "raised ?s2 \<noteq> None" using s2 by blast
    show ?thesis
      using False s2 by (auto simp: m main_trace_def s1 call_validate_raised[OF r])
  qed
qed

section \<open>The running bounds across epochs\<close>

lemma example_validate:
  "validate norm_tensor example_loader 2 2 0.7 = Inr (Fin (200 / 3), Fin (200 / 3))"
  by (simp add: validate_def example_loader_def confusion_def all_score_def all_labels_def
      all_predictions_def norm_tensor_def teq_def cm_update_def cm_compute_def ConfusionMatrix_def
      summary_def known_acc_def unknown_acc_def tmean_def tsum_def py_div_def combine_def
      tsub_def tmax_def tmin_def tmax2_def tmin2_def Let_def upt_rec)

lemma example_weight:
  "calc_source_class_weight norm_tensor example_loader 2 0.4 = Inr [Fin 1, Fin 0]"
  by (simp add: calc_source_class_weight_def class_weight_def selected_def mean_dim0_def
      example_loader_def all_score_def norm_tensor_def teq_def combine_def tsub_def tmax_def tmin_def
      tmax2_def tmin2_def tmean_def tsum_def Let_def upt_rec)

lemma example_epoch_trace:
  "epoch_trace norm_tensor example_args example_world (Fin 0, Fin 0) e
     = [TrainIter e 0 (Fin 0, Fin 0) (Fin 0.891, Fin 0.099) [Fin (89 / 88), Fin (1 / 792)],
        TrainIter e 1 (Fin 0.891, Fin 0.099) (Fin 0.89991, Fin 0.09999)
          [Fin (8889 / 8888), Fin (1 / 79992)],
        TrainEns 0 e 0, TrainEns 1 e 0, TrainEns 2 e 0, TrainEns 3 e 0, TrainEns 4 e 0,
        Validate \<lparr>from_source = False, task = ''W'', split_name = None, transform = Val_transform\<rparr>
          (Fin (200 / 3)) (Fin (200 / 3))]"
  by (simp add: epoch_trace_def epoch_draws_def epoch_validate_def example_args_def
      example_world_def example_validate ens_trace_def validate_trace_def val_dataset_def
      universal_def update_spec_def raw_scores_def running_normalize_def combine_def tsub_def
      tmax_def tmin_def tmax2_def tmin2_def upt_rec)

lemma example_epoch_ok: "epoch_ok norm_tensor example_args example_world e"
  by (auto simp: epoch_ok_def epoch_draws_def epoch_validate_def example_args_def
      example_world_def example_validate)

lemma example_main_trace:
  "main_trace norm_tensor example_args example_world
     = [Pretrain 0 0, Pretrain 0 1, EnterNoGrad,
        WeightBatch \<lparr>from_source = False, task = ''W'', split_name = None, transform = Val_transform\<rparr> 0,
        WeightBatch \<lparr>from_source = False, task = ''W'', split_name = None, transform = Val_transform\<rparr> 1,
        ExitNoGrad, PrintWeight [Fin 1, Fin 0]]
       @ epoch_trace norm_tensor example_args example_world (Fin 0, Fin 0) 0
       @ epoch_trace norm_tensor example_args example_world (Fin 0, Fin 0) 1
       @ [Validate \<lparr>from_source = False, task = ''W'', split_name = None, transform = Val_transform\<rparr>
            (Fin (200 / 3)) (Fin (200 / 3))]"
proof -
  have p: "pretrain_trace example_args = [Pretrain 0 0, Pretrain 0 1]"
    by (simp add: pretrain_trace_def example_args_def upt_rec)
  have w: "weight_trace norm_tensor example_args example_world
      = [EnterNoGrad,
         WeightBatch \<lparr>from_source = False, task = ''W'', split_name = None, transform = Val_transform\<rparr> 0,
         WeightBatch \<lparr>from_source = False, task = ''W'', split_name = None, transform = Val_transform\<rparr> 1,
         ExitNoGrad, PrintWeight [Fin 1, Fin 0]]"
    using example_weight
    by (simp add: weight_trace_def example_args_def example_world_def val_dataset_def
        universal_def cut_mask_def example_loader_def upt_rec)
  have e: "nat (epochs example_args) = 2"
    by (simp add: example_args_def)
  have n: "weight_pass example_world \<noteq> []"
    by (simp add: example_world_def example_loader_def)
  have t: "test_validate norm_tensor example_args example_world = Inr (Fin (200 / 3), Fin (200 / 3))"
    using example_validate by (simp add: test_validate_def example_args_def example_world_def)
  have d: "test_dataset example_args
      = \<lparr>from_source = False, task = ''W'', split_name = None, transform = Val_transform\<rparr>"
    by (simp add: test_dataset_def val_dataset_def universal_def example_args_def)
  have u: "[0..<2] = [0, Suc 0]" by (simp add: upt_rec)
  show ?thesis
    unfolding main_trace_def p w e u
    by (simp add: example_epoch_ok t d n validate_trace_def)
qed

text \<open>
  Claim C1 does not hold of the code. In the small run, of two epochs of two iterations,
  the first iteration of the second epoch reads the bounds (0, 0) again, not the bounds
  (0.89991, 0.09999) that the last iteration of the first epoch computed: lines 371 and
  372 bind the local names of \<^verbatim>\<open>train\<close> to new tensors, and the tensors that \<^verbatim>\<open>main\<close>
  made in lines 195 and 196 and passes to every call stay zero.
\<close>

theorem bounds_reset_every_epoch:
  "bounds_read (log (main norm_tensor example_args example_world))
     = [((0, 0), Fin 0, Fin 0), ((0, 1), Fin 0.891, Fin 0.099),
        ((1, 0), Fin 0, Fin 0), ((1, 1), Fin 0.891, Fin 0.099)]
   \<and> bounds_computed (log (main norm_tensor example_args example_world))
     = [(Fin 0.891, Fin 0.099), (Fin 0.89991, Fin 0.09999),
        (Fin 0.891, Fin 0.099), (Fin 0.89991, Fin 0.09999)]"
proof -
  have "phase example_args = Train" by (simp add: example_args_def)
  then have "log (main norm_tensor example_args example_world)
      = main_trace norm_tensor example_args example_world"
    by (rule main_log)
  then show ?thesis
    unfolding example_main_trace example_epoch_trace
    by (simp add: bounds_read_def bounds_computed_def train_views_def List.map_filter_def)
qed

section \<open>The pass that computes the class weights\<close>

lemma weight_batches_append: "weight_batches (xs @ ys) = weight_batches xs @ weight_batches ys"
  by (simp add: weight_batches_def List.map_filter_def)

lemma no_train_iter_pretrain:
  "e \<in> set (pretrain_trace a) \<Longrightarrow> \<not> is_train_iter e \<and> \<not> is_weight_batch e"
  by (auto simp: pretrain_trace_def)

lemma train_trace_events: "\<forall>e \<in> set (train_trace ep i b draws). is_train_iter e"
  by (induction draws arbitrary: i b) simp_all

lemma train_iter_not_weight: "is_train_iter e \<Longrightarrow> \<not> is_weight_batch e"
  by (cases e) simp_all

lemma no_weight_train_trace: "e \<in> set (train_trace ep i b draws) \<Longrightarrow> \<not> is_weight_batch e"
  using train_trace_events train_iter_not_weight by blast

lemma no_weight_epoch_trace: "e \<in> set (epoch_trace norm' a w b ep) \<Longrightarrow> \<not> is_weight_batch e"
  by (auto simp: epoch_trace_def ens_trace_def validate_trace_def dest: no_weight_train_trace
      split: if_splits sum.splits)

lemma no_weight_loop_trace:
  "(\<And>ep e. e \<in> set (f ep) \<Longrightarrow> \<not> is_weight_batch e) \<Longrightarrow> e \<in> set (loop_trace f ok es)
   \<Longrightarrow> \<not> is_weight_batch e"
  by (induction es) (auto split: if_splits)

lemma weight_batches_none: "(\<And>e. e \<in> set es \<Longrightarrow> \<not> is_weight_batch e) \<Longrightarrow> weight_batches es = []"
proof (induction es)
  case Nil
  then show ?case by (simp add: weight_batches_def List.map_filter_def)
next
  case (Cons e es)
  then have "\<not> is_weight_batch e" "weight_batches es = []" by simp_all
  then show ?case by (cases e) (simp_all add: weight_batches_def List.map_filter_def)
qed

lemma weight_batches_map: "weight_batches (map (WeightBatch ds) ks) = map (Pair ds) ks"
  by (induction ks) (simp_all add: weight_batches_def List.map_filter_def)

lemma nth_append3:
  assumes "i < length (A @ B @ T)"
  shows "(i < length A \<and> (A @ B @ T) ! i \<in> set A)
       \<or> (length A \<le> i \<and> i < length A + length B \<and> (A @ B @ T) ! i \<in> set B)
       \<or> (length A + length B \<le> i \<and> (A @ B @ T) ! i \<in> set T)"
  using assms by (auto simp: nth_append)

lemma take_append3:
  assumes "length A \<le> i" "i < length A + length B"
  shows "take i (A @ B @ T) = A @ take (i - length A) B"
  using assms by simp

lemma no_grad_depth_append: "no_grad_depth (xs @ ys) = fold no_grad_step ys (no_grad_depth xs)"
  by (simp add: no_grad_depth_def)

lemma no_grad_pretrain: "no_grad_depth (pretrain_trace a) = 0"
proof -
  have "(\<forall>e \<in> set es. \<exists>ep i. e = Pretrain ep i) \<Longrightarrow> fold no_grad_step es d = d" for es d
    by (induction es arbitrary: d) auto
  then show ?thesis by (auto simp: no_grad_depth_def pretrain_trace_def)
qed

lemma no_grad_weight_batches: "fold no_grad_step (map (WeightBatch ds) ks) d = d"
  by (induction ks arbitrary: d) simp_all

text \<open>In the phase \<^verbatim>\<open>train\<close> the run is: stage 1, the objects of stage 2, the call
  of \<^verbatim>\<open>calc_source_class_weight\<close> on \<^verbatim>\<open>val_loader\<close> and, unless the call raises, the
  epochs and the last evaluation.\<close>

lemma main_calls_calc:
  assumes "phase a = Train"
  shows "\<exists>s. raised s = None \<and> log s = pretrain_trace a
     \<and> log (main norm' a w)
         = log (call_calc_source_class_weight norm' (DataLoader (val_dataset a) (weight_pass w))
                  (num_classes w) (src_threshold a) (cut a) s)
           @ (if weight_pass w = [] then []
              else loop_trace (epoch_trace norm' a w (Fin 0, Fin 0)) (epoch_ok norm' a w)
                     [0..<nat (epochs a)]
                   @ (if \<forall>e \<in> set [0..<nat (epochs a)]. epoch_ok norm' a w e
                      then validate_trace (test_dataset a) (test_validate norm' a w) else []))"
proof -
  let ?s6 = "snd (new_tensor (Fin 0) (snd (new_tensor (Fin 0)
               (snd (new_stepper (snd (new_stepper (snd (new_stepper (snd (new_stepper
                 (stage1 a init))))))))))))"
  have s1: "log (stage1 a init) = pretrain_trace a" "raised (stage1 a init) = None"
    using stage1_run[of init a] by simp_all
  have r6: "raised ?s6 = None" and l6: "log ?s6 = pretrain_trace a"
    using s1 by simp_all
  have "log (call_calc_source_class_weight norm' (DataLoader (val_dataset a) (weight_pass w))
                  (num_classes w) (src_threshold a) (cut a) ?s6)
      = pretrain_trace a @ weight_trace norm' a w"
    using call_calc_run[OF r6, of norm' "val_dataset a" "weight_pass w" "num_classes w"
        "src_threshold a" "cut a", THEN conjunct1]
    by (simp add: weight_trace_def s1)
  then have "log (main norm' a w)
         = log (call_calc_source_class_weight norm' (DataLoader (val_dataset a) (weight_pass w))
                  (num_classes w) (src_threshold a) (cut a) ?s6)
           @ (if weight_pass w = [] then []
              else loop_trace (epoch_trace norm' a w (Fin 0, Fin 0)) (epoch_ok norm' a w)
                     [0..<nat (epochs a)]
                   @ (if \<forall>e \<in> set [0..<nat (epochs a)]. epoch_ok norm' a w e
                      then validate_trace (test_dataset a) (test_validate norm' a w) else []))"
    using main_log[OF assms, of norm' w] by (simp add: main_trace_def)
  then show ?thesis using r6 l6 by blast
qed

lemma rest_no_weight_batch:
  assumes "e \<in> set (loop_trace (epoch_trace norm' a w (Fin 0, Fin 0)) (epoch_ok norm' a w) es
                    @ (if c then validate_trace ds r else []))"
  shows "\<not> is_weight_batch e \<and> e \<noteq> EnterNoGrad \<and> e \<noteq> ExitNoGrad"
proof -
  have ep: "e \<noteq> EnterNoGrad \<and> e \<noteq> ExitNoGrad \<and> \<not> is_weight_batch e"
    if "e \<in> set (epoch_trace norm' a w b k)" for e b k
  proof -
    have "e \<noteq> EnterNoGrad \<and> e \<noteq> ExitNoGrad" if "e \<in> set (train_trace k i b ds)" for i ds
      using train_trace_events that by fastforce
    then show ?thesis
      using that no_weight_epoch_trace[of e norm' a w b k]
      by (auto simp: epoch_trace_def ens_trace_def validate_trace_def
          split: if_splits sum.splits)
  qed
  have lp: "e \<noteq> EnterNoGrad \<and> e \<noteq> ExitNoGrad \<and> \<not> is_weight_batch e"
    if "e \<in> set (loop_trace (epoch_trace norm' a w (Fin 0, Fin 0)) ok es)" for e ok
    using that by (induction es) (auto split: if_splits dest: ep)
  from assms consider
      "e \<in> set (loop_trace (epoch_trace norm' a w (Fin 0, Fin 0)) (epoch_ok norm' a w) es)"
    | "e \<in> set (validate_trace ds r)"
    by (auto split: if_splits)
  then show ?thesis
  proof cases
    case 1
    then show ?thesis using lp by blast
  next
    case 2
    then show ?thesis by (auto simp: validate_trace_def split: sum.splits)
  qed
qed

text \<open>
  Claim C3, as amended. In the phase \<^verbatim>\<open>train\<close>, after the iterations of
  \<^verbatim>\<open>pretrain\<close>, the log of the run goes on with the one pass of
  \<^verbatim>\<open>calc_source_class_weight\<close>: the entry into \<^verbatim>\<open>torch.no_grad()\<close>, one run of the
  backbone and the ensemble on every batch of \<^verbatim>\<open>val_loader\<close> in order, the exit, and
  then (unless the loader gave no batch, which ends the run) the print of the mask of
  the weights, which are those of all the samples of all the batches; no run of the
  networks for the weights comes later. The loader is
  that of the validation set of the target domain (built with \<^verbatim>\<open>source=False\<close> for the task
  \<^verbatim>\<open>args.target\<close>, with the validation transform), not a set of the source domain, and the
  labels of its samples play no part in the weights. Every run of the networks for the
  weights happens with gradient computation disabled, and before every iteration of
  \<^verbatim>\<open>train\<close>.
\<close>

theorem weight_pass_on_target_validation_set:
  assumes "phase a = Train"
  shows "(\<exists>rest. log (main norm' a w)
            = pretrain_trace a
              @ EnterNoGrad # map (WeightBatch (val_dataset a)) [0..<length (weight_pass w)]
              @ ExitNoGrad
              # (if weight_pass w = [] then []
                 else PrintWeight (cut_mask (cut a)
                        (class_weight norm' [concat (weight_pass w)] (num_classes w)
                           (src_threshold a))) # rest)
          \<and> (\<forall>e \<in> set rest. \<not> is_weight_batch e \<and> e \<noteq> EnterNoGrad \<and> e \<noteq> ExitNoGrad))
    \<and> (\<forall>e \<in> set (pretrain_trace a). \<exists>epoch i. e = Pretrain epoch i)
    \<and> weight_batches (log (main norm' a w))
        = map (Pair (val_dataset a)) [0..<length (weight_pass w)]
    \<and> from_source (val_dataset a) = False \<and> task (val_dataset a) = target a
    \<and> transform (val_dataset a) = Val_transform
    \<and> (\<forall>f. class_weight norm' (map (map (\<lambda>x. x\<lparr>label := f x\<rparr>)) (weight_pass w))
               (num_classes w) (src_threshold a)
             = class_weight norm' (weight_pass w) (num_classes w) (src_threshold a))
    \<and> (\<forall>i < length (log (main norm' a w)). is_weight_batch (log (main norm' a w) ! i) \<longrightarrow>
          0 < no_grad_depth (take i (log (main norm' a w)))
          \<and> (\<forall>j < length (log (main norm' a w)).
                is_train_iter (log (main norm' a w) ! j) \<longrightarrow> i < j))"
proof -
  let ?L = "log (main norm' a w)"
  let ?P = "pretrain_trace a"
  let ?n = "length (weight_pass w)"
  let ?B = "map (WeightBatch (val_dataset a)) [0..<?n]"
  let ?rest = "loop_trace (epoch_trace norm' a w (Fin 0, Fin 0)) (epoch_ok norm' a w)
                    [0..<nat (epochs a)]
                  @ (if \<forall>e \<in> set [0..<nat (epochs a)]. epoch_ok norm' a w e
                     then validate_trace (test_dataset a) (test_validate norm' a w) else [])"
  let ?W = "PrintWeight (cut_mask (cut a)
              (class_weight norm' [concat (weight_pass w)] (num_classes w) (src_threshold a)))"
  let ?T = "ExitNoGrad # (if weight_pass w = [] then [] else ?W # ?rest)"
  let ?call = "call_calc_source_class_weight norm' (DataLoader (val_dataset a) (weight_pass w))
                  (num_classes w) (src_threshold a) (cut a)"
  obtain s where r: "raised s = None" and ls: "log s = ?P"
    and Lc: "?L = log (?call s) @ (if weight_pass w = [] then [] else ?rest)"
    using main_calls_calc[OF assms, of norm' w] by blast
  have wl: "weight_loop (DataLoader (val_dataset a) (weight_pass w)) s
      = (weight_pass w, s\<lparr>log := log s @ EnterNoGrad # ?B @ [ExitNoGrad]\<rparr>)"
    using weight_fold[of "val_dataset a" 0 "weight_pass w" "[]" "emit EnterNoGrad s"]
    by (simp add: weight_loop_def DataLoader_def emit_def)
  have cw: "class_weight norm' (weight_pass w) (num_classes w) (src_threshold a)
      = class_weight norm' [concat (weight_pass w)] (num_classes w) (src_threshold a)"
    by (simp add: class_weight_def all_score_def map_concat)
  have cc: "log (?call s)
      = ?P @ EnterNoGrad # ?B @ ExitNoGrad # (if weight_pass w = [] then [] else [?W])"
    using r by (simp add: call_calc_source_class_weight_def wl calc_source_class_weight_def ls cw)
  have L: "?L = ?P @ EnterNoGrad # ?B @ ?T"
    unfolding Lc cc by simp
  have R: "\<forall>e \<in> set ?rest. \<not> is_weight_batch e \<and> e \<noteq> EnterNoGrad \<and> e \<noteq> ExitNoGrad"
    using rest_no_weight_batch by blast
  have one: "\<exists>rest. ?L = ?P @ EnterNoGrad # ?B
              @ ExitNoGrad # (if weight_pass w = [] then [] else ?W # rest)
          \<and> (\<forall>e \<in> set rest. \<not> is_weight_batch e \<and> e \<noteq> EnterNoGrad \<and> e \<noteq> ExitNoGrad)"
    using L R by blast
  have two: "\<forall>e \<in> set ?P. \<exists>epoch i. e = Pretrain epoch i"
    by (auto simp: pretrain_trace_def)
  have Tn: "\<not> is_weight_batch e" if "e \<in> set ?T" for e
  proof -
    from that consider "e = ExitNoGrad" | "e = ?W" | "e \<in> set ?rest"
      by (auto split: if_splits)
    then show ?thesis
    proof cases
      case 3
      then show ?thesis using R by blast
    qed simp_all
  qed
  have T0: "weight_batches ?T = []"
    using Tn by (rule weight_batches_none)
  have P0: "weight_batches ?P = []"
    by (rule weight_batches_none) (simp add: no_train_iter_pretrain)
  have three: "weight_batches ?L = map (Pair (val_dataset a)) [0..<?n]"
  proof -
    have "weight_batches ?L = weight_batches ?P @ weight_batches [EnterNoGrad]
            @ weight_batches ?B @ weight_batches ?T"
      unfolding L by (simp only: weight_batches_append[symmetric] append_Cons append_Nil)
    then show ?thesis
      by (simp add: P0 T0 weight_batches_map) (simp add: weight_batches_def List.map_filter_def)
  qed
  have four: "from_source (val_dataset a) = False \<and> task (val_dataset a) = target a
      \<and> transform (val_dataset a) = Val_transform"
    by (simp add: val_dataset_def universal_def)
  have five: "\<forall>f. class_weight norm' (map (map (\<lambda>x. x\<lparr>label := f x\<rparr>)) (weight_pass w))
               (num_classes w) (src_threshold a)
             = class_weight norm' (weight_pass w) (num_classes w) (src_threshold a)"
    by (simp add: class_weight_def all_score_def comp_def)
  let ?A = "?P @ [EnterNoGrad]"
  have LA: "?L = ?A @ ?B @ ?T" by (simp add: L)
  have An: "\<not> is_weight_batch e \<and> \<not> is_train_iter e" if "e \<in> set ?A" for e
    using that no_train_iter_pretrain by auto
  have Bn: "\<not> is_train_iter e" if "e \<in> set ?B" for e
    using that by auto
  have six: "0 < no_grad_depth (take i ?L) \<and> (\<forall>j < length ?L. is_train_iter (?L ! j) \<longrightarrow> i < j)"
    if i: "i < length ?L" and wb: "is_weight_batch (?L ! i)" for i
  proof -
    have i': "i < length (?A @ ?B @ ?T)" using i unfolding LA .
    have wb': "is_weight_batch ((?A @ ?B @ ?T) ! i)" using wb unfolding LA .
    have mid: "length ?A \<le> i \<and> i < length ?A + length ?B"
      using nth_append3[OF i'] wb' An Tn by blast
    have "take i (?A @ ?B @ ?T) = ?A @ take (i - length ?A) ?B"
      using mid by (intro take_append3) simp_all
    then have tk: "take i ?L = ?A @ take (i - length ?A) ?B"
      unfolding LA .
    have "take (i - length ?A) ?B
        = map (WeightBatch (val_dataset a)) (take (i - length ?A) [0..<?n])"
      by (simp add: take_map)
    then have "no_grad_depth (take i ?L) = no_grad_depth ?A"
      unfolding tk by (simp only: no_grad_depth_append no_grad_weight_batches)
    also have "\<dots> = Suc 0"
      by (simp add: no_grad_depth_append no_grad_pretrain)
    finally have d: "0 < no_grad_depth (take i ?L)" by simp
    have "i < j" if j: "j < length ?L" and tr: "is_train_iter (?L ! j)" for j
    proof -
      have j': "j < length (?A @ ?B @ ?T)" using j unfolding LA .
      have tr': "is_train_iter ((?A @ ?B @ ?T) ! j)" using tr unfolding LA .
      have "length ?A + length ?B \<le> j"
        using nth_append3[OF j'] tr' An Bn by blast
      then show ?thesis using mid by simp
    qed
    then show ?thesis using d by blast
  qed
  show ?thesis using one two three four five six by blast
qed

text \<open>The log of the small run.\<close>

lemma example_log:
  "log (main norm_tensor example_args example_world)
     = [Pretrain 0 0, Pretrain 0 1, EnterNoGrad,
        WeightBatch \<lparr>from_source = False, task = ''W'', split_name = None, transform = Val_transform\<rparr> 0,
        WeightBatch \<lparr>from_source = False, task = ''W'', split_name = None, transform = Val_transform\<rparr> 1,
        ExitNoGrad, PrintWeight [Fin 1, Fin 0]]
       @ epoch_trace norm_tensor example_args example_world (Fin 0, Fin 0) 0
       @ epoch_trace norm_tensor example_args example_world (Fin 0, Fin 0) 1
       @ [Validate \<lparr>from_source = False, task = ''W'', split_name = None, transform = Val_transform\<rparr>
            (Fin (200 / 3)) (Fin (200 / 3))]"
proof -
  have "phase example_args = Train" by (simp add: example_args_def)
  then show ?thesis using main_log example_main_trace by simp
qed

text \<open>In the small run the networks run on the two batches of the validation set of
  the task W, at the positions 3 and 4 of the log, inside the block that disables
  gradients; the first iteration of \<^verbatim>\<open>train\<close> is at position 7.\<close>

theorem weight_pass_on_target_validation_set_witness:
  "weight_batches (log (main norm_tensor example_args example_world))
     = [(\<lparr>from_source = False, task = ''W'', split_name = None, transform = Val_transform\<rparr>, 0),
        (\<lparr>from_source = False, task = ''W'', split_name = None, transform = Val_transform\<rparr>, 1)]
   \<and> is_weight_batch (log (main norm_tensor example_args example_world) ! 4)
   \<and> 0 < no_grad_depth (take 4 (log (main norm_tensor example_args example_world)))
   \<and> is_train_iter (log (main norm_tensor example_args example_world) ! 7)"
proof -
  let ?L = "log (main norm_tensor example_args example_world)"
  have p: "phase example_args = Train" by (simp add: example_args_def)
  note T = weight_pass_on_target_validation_set[OF p, of norm_tensor example_world]
  have v: "val_dataset example_args
      = \<lparr>from_source = False, task = ''W'', split_name = None, transform = Val_transform\<rparr>"
    by (simp add: val_dataset_def universal_def example_args_def)
  have n: "length (weight_pass example_world) = 2"
    by (simp add: example_world_def example_loader_def)
  have u: "[0..<2] = [0, Suc 0]" by (simp add: upt_rec)
  have "weight_batches ?L
      = map (Pair (val_dataset example_args)) [0..<length (weight_pass example_world)]"
    using T by blast
  then have one: "weight_batches ?L
      = [(\<lparr>from_source = False, task = ''W'', split_name = None, transform = Val_transform\<rparr>, 0),
         (\<lparr>from_source = False, task = ''W'', split_name = None, transform = Val_transform\<rparr>, 1)]"
    by (simp add: v n u)
  have wb: "is_weight_batch (?L ! 4)"
    unfolding example_log by simp
  have tr: "is_train_iter (?L ! 7)"
    unfolding example_log example_epoch_trace by simp
  have len: "4 < length ?L"
    unfolding example_log by simp
  have "\<forall>i < length ?L. is_weight_batch (?L ! i) \<longrightarrow> 0 < no_grad_depth (take i ?L)"
    using T by blast
  then have "0 < no_grad_depth (take 4 ?L)"
    using len wb by blast
  then show ?thesis using one wb tr by simp
qed

text \<open>Claim C3 as the spec states it fails: the set read is not of the source domain.
  In the small run, with the source task A and the target task W, both batches of the
  pass come from a dataset built with \<^verbatim>\<open>source=False\<close> for the task W.\<close>

theorem weight_pass_dataset_counterexample:
  "map from_source (weight_datasets (log (main norm_tensor example_args example_world)))
     = [False, False]
   \<and> map task (weight_datasets (log (main norm_tensor example_args example_world)))
     = [''W'', ''W'']
   \<and> source example_args = ''A''"
  unfolding example_log example_epoch_trace
  by (simp add: weight_datasets_def weight_batches_def List.map_filter_def example_args_def)

section \<open>Every epoch starts from the bounds (0, 0)\<close>

text \<open>The general form of what the small run shows for claim C1: in any run of the
  phase \<^verbatim>\<open>train\<close>, with any normalizer, the first iteration of every epoch reads the
  bounds (0, 0).\<close>

lemma train_views_Nil [simp]: "train_views [] = []"
  by (simp add: train_views_def List.map_filter_def)

lemma train_views_Cons:
  "train_views (e # es) = (case train_view e of None \<Rightarrow> train_views es | Some v \<Rightarrow> v # train_views es)"
  by (simp add: train_views_def List.map_filter_def split: option.splits)

lemma bounds_read_Nil [simp]: "bounds_read [] = []"
  by (simp add: bounds_read_def)

lemma train_views_none: "(\<And>e. e \<in> set es \<Longrightarrow> \<not> is_train_iter e) \<Longrightarrow> train_views es = []"
proof (induction es)
  case Nil
  then show ?case by (simp add: train_views_def List.map_filter_def)
next
  case (Cons e es)
  then have "\<not> is_train_iter e" "train_views es = []" by simp_all
  then show ?case by (cases e) (simp_all add: train_views_def List.map_filter_def)
qed

lemma bounds_read_append: "bounds_read (xs @ ys) = bounds_read xs @ bounds_read ys"
  by (simp add: bounds_read_def train_views_append)

lemma bounds_read_train_trace:
  "((ep', j), r) \<in> set (bounds_read (train_trace ep i b draws))
     \<Longrightarrow> ep' = ep \<and> i \<le> j \<and> (j = i \<longrightarrow> r = b)"
proof (induction draws arbitrary: i b)
  case Nil
  then show ?case by (simp add: bounds_read_def train_views_def List.map_filter_def)
next
  case (Cons x draws)
  show ?case
  proof (cases "x = []")
    case True
    then show ?thesis
      using Cons.prems by (simp add: bounds_read_def train_views_def List.map_filter_def)
  next
    case False
    then have "((ep', j), r) = ((ep, i), b)
        \<or> ((ep', j), r) \<in> set (bounds_read (train_trace ep (Suc i) (update_spec b (raw_scores x)) draws))"
      using Cons.prems by (simp add: bounds_read_def train_views_def List.map_filter_def)
    then show ?thesis
    proof
      assume "((ep', j), r) = ((ep, i), b)"
      then show ?thesis by simp
    next
      assume "((ep', j), r) \<in> set (bounds_read (train_trace ep (Suc i) (update_spec b (raw_scores x)) draws))"
      from Cons.IH[OF this] show ?thesis by simp
    qed
  qed
qed

lemma bounds_read_epoch_trace:
  "bounds_read (epoch_trace norm' a w b ep) = bounds_read (train_trace ep 0 b (epoch_draws a w ep))"
proof -
  have "train_views (ens_trace ep (iters_per_epoch a)
          @ validate_trace (val_dataset a) (epoch_validate norm' a w ep)) = []"
    by (rule train_views_none) (auto simp: ens_trace_def validate_trace_def split: sum.splits)
  then show ?thesis
    by (simp add: epoch_trace_def bounds_read_def train_views_append)
qed

lemma bounds_read_loop_trace:
  "((ep', j), r) \<in> set (bounds_read (loop_trace (epoch_trace norm' a w b) ok es))
     \<Longrightarrow> j = 0 \<longrightarrow> r = b"
proof (induction es)
  case Nil
  then show ?case by (simp add: bounds_read_def train_views_def List.map_filter_def)
next
  case (Cons e es)
  then consider "((ep', j), r) \<in> set (bounds_read (epoch_trace norm' a w b e))"
    | "((ep', j), r) \<in> set (bounds_read (loop_trace (epoch_trace norm' a w b) ok es))"
    by (auto simp: bounds_read_append split: if_splits)
  then show ?case
  proof cases
    case 1
    then have "((ep', j), r) \<in> set (bounds_read (train_trace e 0 b (epoch_draws a w e)))"
      by (simp add: bounds_read_epoch_trace)
    from bounds_read_train_trace[OF this] show ?thesis by simp
  next
    case 2
    then show ?thesis using Cons.IH by simp
  qed
qed

lemma first_iteration_reads_zero:
  assumes "phase a = Train"
    and "((ep, 0), r) \<in> set (bounds_read (log (main norm' a w)))"
  shows "r = (Fin 0, Fin 0)"
proof -
  let ?loop = "loop_trace (epoch_trace norm' a w (Fin 0, Fin 0)) (epoch_ok norm' a w)
                 [0..<nat (epochs a)]"
  have P: "bounds_read (pretrain_trace a) = []"
    unfolding bounds_read_def
    using train_views_none[of "pretrain_trace a"] no_train_iter_pretrain by simp
  have "train_views (weight_trace norm' a w) = []"
    by (rule train_views_none) (auto simp: weight_trace_def split: sum.splits)
  then have W: "bounds_read (weight_trace norm' a w) = []"
    by (simp add: bounds_read_def)
  have V: "bounds_read (validate_trace (test_dataset a) (test_validate norm' a w)) = []"
    unfolding bounds_read_def
    by (simp add: train_views_Cons validate_trace_def split: sum.splits prod.splits)
  have "bounds_read (log (main norm' a w)) = bounds_read (main_trace norm' a w)"
    using main_log[OF assms(1)] by simp
  also have "\<dots> = (if weight_pass w = [] then [] else bounds_read ?loop)"
    by (simp add: main_trace_def bounds_read_append P W V)
  finally have "((ep, 0), r) \<in> set (bounds_read ?loop)"
    using assms(2) by (simp split: if_splits)
  then show ?thesis using bounds_read_loop_trace by blast
qed

section \<open>The schedule of the ensemble heads\<close>

lemma train_ens_iter_steps:
  assumes "raised s = None" "opt < length (steps s)" "sch < length (steps s)" "opt \<noteq> sch"
  shows "steps (train_ens_iter opt sch k ep i s) ! sch = Suc (steps s ! sch)"
    and "steps (train_ens_iter opt sch k ep i s) ! opt = Suc (steps s ! opt)"
  using assms by (simp_all add: train_ens_iter_def step_def emit_def)

lemma train_ens_iter_keeps:
  "raised s = None \<Longrightarrow> raised (train_ens_iter opt sch k ep i s) = None
     \<and> length (steps (train_ens_iter opt sch k ep i s)) = length (steps s)"
  by (simp add: train_ens_iter_def)

lemma train_ens_fold_steps:
  assumes "raised s = None" "opt < length (steps s)" "sch < length (steps s)" "opt \<noteq> sch"
  shows "steps (fold (train_ens_iter opt sch k ep) is s) ! sch = steps s ! sch + length is
     \<and> steps (fold (train_ens_iter opt sch k ep) is s) ! opt = steps s ! opt + length is"
  using assms
proof (induction "is" arbitrary: s)
  case Nil
  then show ?case by simp
next
  case (Cons i "is")
  let ?s1 = "train_ens_iter opt sch k ep i s"
  have k: "raised ?s1 = None" "opt < length (steps ?s1)" "sch < length (steps ?s1)"
    using Cons.prems train_ens_iter_keeps[of s opt sch k ep i] by simp_all
  from Cons.IH[OF k Cons.prems(4)] train_ens_iter_steps[OF Cons.prems, of k ep i]
  show ?case by simp
qed

lemma train_ens_classifier_steps:
  assumes "raised s = None" "opt < length (steps s)" "sch < length (steps s)" "opt \<noteq> sch"
  shows "steps (train_ens_classifier opt sch k ep iters s) ! sch = steps s ! sch + nat (iters div 2)"
    and "steps (train_ens_classifier opt sch k ep iters s) ! opt = steps s ! opt + nat (iters div 2)"
  using train_ens_fold_steps[OF assms, of k ep "[0..<nat (iters div 2)]"]
  by (simp_all add: train_ens_classifier_def)

lemma heads_fold_steps:
  assumes "raised s = None" "opt < length (steps s)" "sch < length (steps s)" "opt \<noteq> sch"
    and "\<forall>i \<in> set ks. scheds ! i = sch"
  shows "steps (fold (\<lambda>i. train_ens_classifier opt (scheds ! i) i ep iters) ks s) ! sch
           = steps s ! sch + length ks * nat (iters div 2)
     \<and> steps (fold (\<lambda>i. train_ens_classifier opt (scheds ! i) i ep iters) ks s) ! opt
           = steps s ! opt + length ks * nat (iters div 2)"
  using assms
proof (induction ks arbitrary: s)
  case Nil
  then show ?case by simp
next
  case (Cons k ks)
  let ?s1 = "train_ens_classifier opt sch k ep iters s"
  have e: "scheds ! k = sch" "\<forall>i \<in> set ks. scheds ! i = sch" using Cons.prems(5) by simp_all
  have keep: "raised ?s1 = None" "opt < length (steps ?s1)" "sch < length (steps ?s1)"
    using Cons.prems(1-3) train_ens_classifier_run[OF Cons.prems(1), of opt sch k ep iters]
    by simp_all
  from Cons.IH[OF keep Cons.prems(4) e(2)]
    train_ens_classifier_steps[OF Cons.prems(1-4), of k ep iters]
  show ?case by (simp add: e(1) algebra_simps)
qed

text \<open>
  Claim C10. The setup of stage 2 makes one optimizer for the ensemble and a list of five
  schedulers that are one object: five times the same address, next to the address of the
  optimizer. With such a list, and a number of iterations per epoch that is not negative,
  the loops of the heads advance that one scheduler in turn: after \<open>k\<close> heads it has
  advanced \<^verbatim>\<open>k * (iters_per_epoch // 2)\<close> steps, after the five heads of one refresh
  \<^verbatim>\<open>5 * (iters_per_epoch // 2)\<close> steps, and so has the one optimizer.
\<close>

theorem ensemble_heads_share_one_schedule:
  "(raised s = None \<longrightarrow>
      fst (stage2_setup norm' a w s)
        = (length (steps s), length (steps s) + 1, length (steps s) + 2,
           replicate 5 (length (steps s) + 3), length (tensors s), length (tensors s) + 1)
      \<and> steps (snd (stage2_setup norm' a w s)) = steps s @ [0, 0, 0, 0])
   \<and> (raised s = None \<and> opt < length (steps s) \<and> sch < length (steps s) \<and> opt \<noteq> sch
        \<and> 0 \<le> iters \<longrightarrow>
      (\<forall>k \<le> 5. int (steps (fold (\<lambda>i. train_ens_classifier opt (replicate 5 sch ! i) i ep iters)
                                [0..<k] s) ! sch)
                  = int (steps s ! sch) + int k * (iters div 2))
      \<and> int (steps (ens_refresh opt (replicate 5 sch) ep iters s) ! sch)
          = int (steps s ! sch) + 5 * (iters div 2)
      \<and> int (steps (ens_refresh opt (replicate 5 sch) ep iters s) ! opt)
          = int (steps s ! opt) + 5 * (iters div 2))"
proof (intro conjI impI allI)
  assume "raised s = None"
  then show "fst (stage2_setup norm' a w s)
        = (length (steps s), length (steps s) + 1, length (steps s) + 2,
           replicate 5 (length (steps s) + 3), length (tensors s), length (tensors s) + 1)"
    and "steps (snd (stage2_setup norm' a w s)) = steps s @ [0, 0, 0, 0]"
    using stage2_setup_run[of s norm' a w] by blast+
next
  fix k :: nat
  assume h: "raised s = None \<and> opt < length (steps s) \<and> sch < length (steps s) \<and> opt \<noteq> sch
        \<and> 0 \<le> iters" and k: "k \<le> 5"
  have "\<forall>i \<in> set [0..<k]. replicate 5 sch ! i = sch" using k by simp
  with h have "steps (fold (\<lambda>i. train_ens_classifier opt (replicate 5 sch ! i) i ep iters)
                                [0..<k] s) ! sch
           = steps s ! sch + length [0..<k] * nat (iters div 2)"
    using heads_fold_steps[of s opt sch "[0..<k]" "replicate 5 sch" ep iters] by blast
  then show "int (steps (fold (\<lambda>i. train_ens_classifier opt (replicate 5 sch ! i) i ep iters)
                                [0..<k] s) ! sch)
                  = int (steps s ! sch) + int k * (iters div 2)"
    using h by simp
next
  assume h: "raised s = None \<and> opt < length (steps s) \<and> sch < length (steps s) \<and> opt \<noteq> sch
        \<and> 0 \<le> iters"
  have "\<forall>i \<in> set [0..<5]. replicate 5 sch ! i = sch" by simp
  with h have r: "steps (ens_refresh opt (replicate 5 sch) ep iters s) ! sch
           = steps s ! sch + length [0..<5] * nat (iters div 2)"
       "steps (ens_refresh opt (replicate 5 sch) ep iters s) ! opt
           = steps s ! opt + length [0..<5] * nat (iters div 2)"
    using heads_fold_steps[of s opt sch "[0..<5]" "replicate 5 sch" ep iters]
    unfolding ens_refresh_def by blast+
  show "int (steps (ens_refresh opt (replicate 5 sch) ep iters s) ! sch)
          = int (steps s ! sch) + 5 * (iters div 2)"
    using r(1) h by simp
  show "int (steps (ens_refresh opt (replicate 5 sch) ep iters s) ! opt)
          = int (steps s ! opt) + 5 * (iters div 2)"
    using r(2) h by simp
qed

text \<open>After stage 1 has made two objects, the setup puts the one scheduler of the
  ensemble at address 5, five times in the list; with 200 iterations per epoch one
  refresh advances it by 500 steps.\<close>

theorem ensemble_heads_share_one_schedule_witness:
  "fst (stage2_setup norm_tensor example_args example_world
          \<lparr>tensors = [], steps = [2, 2], raised = None, log = []\<rparr>)
     = (2, 3, 4, [5, 5, 5, 5, 5], 0, 1)
   \<and> int (steps (ens_refresh 4 [5, 5, 5, 5, 5] 0 200
          \<lparr>tensors = [Fin 0, Fin 0], steps = [2, 2, 0, 0, 0, 0], raised = None, log = []\<rparr>) ! 5) = 500"
proof -
  let ?s = "\<lparr>tensors = [], steps = [2, 2], raised = None, log = []\<rparr>"
  let ?t = "\<lparr>tensors = [Fin 0, Fin 0], steps = [2, 2, 0, 0, 0, 0], raised = None, log = []\<rparr>"
  have r: "replicate 5 (5::nat) = [5, 5, 5, 5, 5]" by (simp add: numeral_eq_Suc)
  have "fst (stage2_setup norm_tensor example_args example_world ?s)
      = (length (steps ?s), length (steps ?s) + 1, length (steps ?s) + 2,
         replicate 5 (length (steps ?s) + 3), length (tensors ?s), length (tensors ?s) + 1)"
    using ensemble_heads_share_one_schedule[of ?s norm_tensor example_args example_world]
    by simp
  then have one: "fst (stage2_setup norm_tensor example_args example_world ?s)
      = (2, 3, 4, [5, 5, 5, 5, 5], 0, 1)"
    using r by simp
  have "int (steps (ens_refresh 4 (replicate 5 5) 0 200 ?t) ! 5)
      = int (steps ?t ! 5) + 5 * (200 div 2)"
    using ensemble_heads_share_one_schedule[of ?t norm_tensor example_args example_world 4 5 200 0]
    by simp
  then have two: "int (steps (ens_refresh 4 [5, 5, 5, 5, 5] 0 200 ?t) ! 5) = 500"
    unfolding r by simp
  show ?thesis using one two by simp
qed

end
